theory Spec2Isabelle
  imports Complex_Main
begin

unbundle bit_operations_syntax

section \<open>Blue Carbon MRV registry: validators, estimators, ledger hash and record store\<close>

text \<open>
  The development follows the two entry points of the repository, \<^verbatim>\<open>app.py\<close> (registry
  table, validators, estimators, issue button) and \<^verbatim>\<open>app1.py\<close> (projects, credits and
  complaints tables, hash at insertion). The handlers and the record store are modelled
  with the validators and estimators over exact reals, a NaN being the value \<open>None\<close> of a
  \<open>real option\<close>: there only the branch taken matters. The validators and the tabular
  estimator are modelled a second time with the floating-point arithmetic of the source
  (binary64, rounding to nearest, ties to even), and the results of the numpy and pandas
  calls as parameters; the theorems about their thresholds and formulas are stated over
  that second model.
\<close>

subsection \<open>Messages and errors\<close>

text \<open>
  Every f-string of the validators is a constructor carrying the interpolated values, in
  the order of the source text.
\<close>

datatype msg =
    Low_pixel_variance "real option"
  | Small_image nat nat
  | Image_passes "real option"
  | Csv_missing_value_column
  | Not_enough_readings
  | Statistical_anomalies nat
  | Flat_sensor_data
  | Iot_readings_ok real real nat

datatype error =
    KeyError | ValueError | DivisionByZero | UnidentifiedImageError | IntegrityError
  | OverflowError

subsection \<open>Images (\<^verbatim>\<open>app.py\<close>, \<^verbatim>\<open>anomaly_detection_image\<close>)\<close>

text \<open>
  An image is its \<^verbatim>\<open>size\<close> and the array of \<^verbatim>\<open>img.convert("L")\<close>, one luminance
  value per pixel.
\<close>

record image =
  width :: nat
  height :: nat
  lum :: "nat list"

definition wf_image :: "image \<Rightarrow> bool" where
  "wf_image img = (length (lum img) = width img * height img)"

text \<open>\<^verbatim>\<open>arr.var()\<close>: the population variance; NaN on an empty array.\<close>

definition np_mean :: "real list \<Rightarrow> real" where
  "np_mean xs = sum_list xs / real (length xs)"

definition np_var :: "real list \<Rightarrow> real option" where
  "np_var xs =
     (if xs = [] then None
      else Some (sum_list (map (\<lambda>x. (x - np_mean xs)\<^sup>2) xs) / real (length xs)))"

text \<open>Comparisons of a float that may be NaN with a number: false on NaN.\<close>

fun nan_less :: "real option \<Rightarrow> real \<Rightarrow> bool" where
  "nan_less None c = False"
| "nan_less (Some v) c = (v < c)"

fun nan_ge :: "real option \<Rightarrow> real \<Rightarrow> bool" where
  "nan_ge None c = False"
| "nan_ge (Some v) c = (c \<le> v)"

fun nan_le :: "real option \<Rightarrow> real option \<Rightarrow> bool" where
  "nan_le (Some a) (Some b) = (a \<le> b)"
| "nan_le _ _ = False"

definition luminance_variance :: "image \<Rightarrow> real option" where
  "luminance_variance img = np_var (map real (lum img))"

definition anomaly_detection_image :: "image \<Rightarrow> bool \<times> msg" where
  "anomaly_detection_image img =
     (let variance = luminance_variance img in
      if nan_less variance 50 then (False, Low_pixel_variance variance)
      else let w = width img; h = height img in
        if w * h < 10000 then (False, Small_image w h)
        else (True, Image_passes variance))"

subsection \<open>Tabular artifacts (\<^verbatim>\<open>app.py\<close>, \<^verbatim>\<open>anomaly_detection_iot\<close>)\<close>

text \<open>
  A data frame as the two functions read it: the numeric column \<^verbatim>\<open>value\<close> (absent, or one
  cell per row with \<open>None\<close> for a missing cell), and the column \<^verbatim>\<open>timestamp\<close> (absent, or
  what \<^verbatim>\<open>pd.to_datetime\<close> makes of it: an exception, or one instant per row in nanoseconds
  with \<open>None\<close> for NaT).
\<close>

datatype ts_parse = Parse_error | Datetimes "int option list"

record dataframe =
  value_col :: "real option list option"
  timestamp_col :: "ts_parse option"

definition dropna :: "'a option list \<Rightarrow> 'a list" where
  "dropna cells = map the (filter (\<lambda>c. c \<noteq> None) cells)"

definition pd_mean :: "real list \<Rightarrow> real" where
  "pd_mean vals = sum_list vals / real (length vals)"

text \<open>\<^verbatim>\<open>Series.std()\<close>: the sample standard deviation (\<^verbatim>\<open>ddof=1\<close>, the default of pandas).\<close>

definition pd_std :: "real list \<Rightarrow> real" where
  "pd_std vals =
     sqrt (sum_list (map (\<lambda>v. (v - pd_mean vals)\<^sup>2) vals) / real (length vals - 1))"

text \<open>
  Division of a series by a number. The outcome of dividing by zero (infinities and NaN in
  numpy, an exception in plain Python) is the error \<open>DivisionByZero\<close>.
\<close>

definition series_div :: "real list \<Rightarrow> real \<Rightarrow> error + real list" where
  "series_div xs d = (if d = 0 then Inl DivisionByZero else Inr (map (\<lambda>x. x / d) xs))"

definition zscore_denominator :: "real list \<Rightarrow> real" where
  "zscore_denominator vals = (if pd_std vals > 0 then pd_std vals else 1)"

definition zscores :: "real list \<Rightarrow> error + real list" where
  "zscores vals = series_div (map (\<lambda>v. v - pd_mean vals) vals) (zscore_denominator vals)"

definition count_anomalies :: "real list \<Rightarrow> nat" where
  "count_anomalies zs = length (filter (\<lambda>z. \<bar>z\<bar> > 3) zs)"

definition nunique :: "real list \<Rightarrow> nat" where
  "nunique vals = length (remdups vals)"

definition anomaly_detection_iot :: "dataframe \<Rightarrow> error + bool \<times> msg" where
  "anomaly_detection_iot df =
     (case value_col df of
        None \<Rightarrow> Inr (False, Csv_missing_value_column)
      | Some cells \<Rightarrow>
          let vals = dropna cells in
          if length vals < 3 then Inr (False, Not_enough_readings)
          else
            (case zscores vals of
               Inl e \<Rightarrow> Inl e
             | Inr zs \<Rightarrow>
                 let anomalies = count_anomalies zs in
                 if anomalies > max 1 (length vals div 10)
                 then Inr (False, Statistical_anomalies anomalies)
                 else if nunique vals \<le> 2 then Inr (False, Flat_sensor_data)
                 else Inr (True, Iot_readings_ok (pd_mean vals) (pd_std vals) anomalies)))"

subsection \<open>Credit estimate of a tabular artifact (\<^verbatim>\<open>app.py\<close>, \<^verbatim>\<open>calculate_credits_iot\<close>)\<close>

text \<open>\<^verbatim>\<open>(max - min).total_seconds() / 3600.0\<close> of a non-empty list of instants in nanoseconds.\<close>

definition span_hours :: "int list \<Rightarrow> real" where
  "span_hours ts = real_of_int (Max (set ts) - Min (set ts)) / 1000000000 / 3600"

text \<open>
  The duration factor. With a \<^verbatim>\<open>timestamp\<close> column whose cells are all NaT the difference
  is NaT, its \<^verbatim>\<open>total_seconds()\<close> is NaN, and \<^verbatim>\<open>max(nan, 1.0)\<close> is NaN.
\<close>

definition duration_hours :: "dataframe \<Rightarrow> real option" where
  "duration_hours df =
     (case timestamp_col df of
        None \<Rightarrow> Some 1
      | Some Parse_error \<Rightarrow> Some 1
      | Some (Datetimes cells) \<Rightarrow>
          (if dropna cells = [] then None
           else Some (max (span_hours (dropna cells)) 1)))"

text \<open>\<^verbatim>\<open>int(x)\<close> of a float: truncation towards zero.\<close>

definition py_int :: "real \<Rightarrow> int" where
  "py_int x = (if 0 \<le> x then \<lfloor>x\<rfloor> else \<lceil>x\<rceil>)"

text \<open>\<^verbatim>\<open>df['value'].mean()\<close> skips the missing cells and is NaN when nothing is left.\<close>

definition column_mean :: "real option list \<Rightarrow> real option" where
  "column_mean cells = (if dropna cells = [] then None else Some (pd_mean (dropna cells)))"

definition calculate_credits_iot :: "dataframe \<Rightarrow> error + int" where
  "calculate_credits_iot df =
     (let duration = duration_hours df in
      case value_col df of
        None \<Rightarrow> Inl KeyError
      | Some cells \<Rightarrow>
          (case (column_mean cells, duration) of
             (Some avg_val, Some hours) \<Rightarrow> Inr (max 1 (py_int ((avg_val * hours) / 10)))
           | _ \<Rightarrow> Inl ValueError))"

text \<open>
  The tabular formula as the specification words it: the duration is the span of the
  timestamps in hours, replaced by 1 only when the column is absent, fails to parse, or
  the span is not positive.
\<close>

definition spec_duration_hours :: "dataframe \<Rightarrow> real" where
  "spec_duration_hours df =
     (case timestamp_col df of
        None \<Rightarrow> 1
      | Some Parse_error \<Rightarrow> 1
      | Some (Datetimes cells) \<Rightarrow>
          (if span_hours (dropna cells) \<le> 0 then 1 else span_hours (dropna cells)))"

definition spec_credits_iot :: "dataframe \<Rightarrow> int" where
  "spec_credits_iot df =
     max 1 \<lfloor>pd_mean (dropna (the (value_col df))) * spec_duration_hours df / 10\<rfloor>"

subsection \<open>Credit estimate of an image (\<^verbatim>\<open>app.py\<close>, \<^verbatim>\<open>calculate_credits_image\<close>)\<close>

definition calculate_credits_image :: "image \<Rightarrow> int" where
  "calculate_credits_image img =
     (let w = width img; h = height img;
          base = real (w * h) / 200000
      in max 1 (py_int (base * 10)))"

subsection \<open>Binary64 arithmetic\<close>

text \<open>
  A Python \<^verbatim>\<open>float\<close> and a numpy \<^verbatim>\<open>float64\<close> are IEEE 754 binary64 numbers: a real
  number of the binary64 grid, an infinity, or NaN (the sign of a zero is not tracked).
  An arithmetic operation returns the exact result rounded to the nearest number of the
  grid, ties to the even significand; the grid around \<open>x\<close> has the spacing \<open>ulp64 x\<close>, and
  a rounded result of magnitude \<open>2\<^sup>1\<^sup>0\<^sup>2\<^sup>4\<close> or more is an infinity.
\<close>

datatype float = Num real | Pos_inf | Neg_inf | Nan

definition round_even :: "real \<Rightarrow> int" where
  "round_even x =
     (let f = \<lfloor>x\<rfloor>; r = x - of_int f in
      if r < 1 / 2 then f else if 1 / 2 < r then f + 1 else if even f then f else f + 1)"

definition expo64 :: "real \<Rightarrow> int" where
  "expo64 x = max \<lfloor>log 2 \<bar>x\<bar>\<rfloor> (- 1022)"

definition ulp64 :: "real \<Rightarrow> real" where
  "ulp64 x = 2 powr of_int (expo64 x - 52)"

definition rnd64 :: "real \<Rightarrow> real" where
  "rnd64 x = (if x = 0 then 0 else of_int (round_even (x / ulp64 x)) * ulp64 x)"

definition overflow64 :: real where
  "overflow64 = 2 ^ 1024"

definition to_float :: "real \<Rightarrow> float" where
  "to_float x =
     (let r = rnd64 x in
      if \<bar>r\<bar> < overflow64 then Num r else if 0 < r then Pos_inf else Neg_inf)"

text \<open>
  Negation, absolute value, subtraction, multiplication, division (that of numpy: a
  division by zero gives an infinity or NaN) and the comparison \<^verbatim>\<open>>\<close>, which is false
  whenever an operand is NaN.
\<close>

fun fneg :: "float \<Rightarrow> float" where
  "fneg (Num a) = Num (- a)"
| "fneg Pos_inf = Neg_inf"
| "fneg Neg_inf = Pos_inf"
| "fneg Nan = Nan"

fun fabs :: "float \<Rightarrow> float" where
  "fabs (Num a) = Num \<bar>a\<bar>"
| "fabs Pos_inf = Pos_inf"
| "fabs Neg_inf = Pos_inf"
| "fabs Nan = Nan"

fun fsub :: "float \<Rightarrow> float \<Rightarrow> float" where
  "fsub (Num a) (Num b) = to_float (a - b)"
| "fsub Nan y = Nan"
| "fsub x Nan = Nan"
| "fsub Pos_inf Pos_inf = Nan"
| "fsub Neg_inf Neg_inf = Nan"
| "fsub Pos_inf y = Pos_inf"
| "fsub Neg_inf y = Neg_inf"
| "fsub (Num a) y = fneg y"

fun fmul :: "float \<Rightarrow> float \<Rightarrow> float" where
  "fmul (Num a) (Num b) = to_float (a * b)"
| "fmul Nan y = Nan"
| "fmul x Nan = Nan"
| "fmul (Num a) y = (if a = 0 then Nan else if 0 < a then y else fneg y)"
| "fmul x (Num b) = (if b = 0 then Nan else if 0 < b then x else fneg x)"
| "fmul Pos_inf y = y"
| "fmul Neg_inf y = fneg y"

fun fdiv :: "float \<Rightarrow> float \<Rightarrow> float" where
  "fdiv (Num a) (Num b) =
     (if b = 0 then (if a = 0 then Nan else if 0 < a then Pos_inf else Neg_inf)
      else to_float (a / b))"
| "fdiv Nan y = Nan"
| "fdiv x Nan = Nan"
| "fdiv (Num a) y = Num 0"
| "fdiv x (Num b) = (if 0 \<le> b then x else fneg x)"
| "fdiv x y = Nan"

fun fgt :: "float \<Rightarrow> float \<Rightarrow> bool" where
  "fgt (Num a) (Num b) = (b < a)"
| "fgt Nan y = False"
| "fgt x Nan = False"
| "fgt Neg_inf y = False"
| "fgt x Pos_inf = False"
| "fgt x y = True"

text \<open>\<^verbatim>\<open>max(a, b)\<close> of Python keeps \<open>a\<close> unless \<open>b > a\<close>; so \<^verbatim>\<open>max(nan, 1.0)\<close> is NaN.\<close>

definition py_max :: "float \<Rightarrow> float \<Rightarrow> float" where
  "py_max a b = (if fgt b a then b else a)"

text \<open>\<^verbatim>\<open>int(x)\<close> truncates a number, and raises on an infinity and on NaN.\<close>

fun py_int64 :: "float \<Rightarrow> error + int" where
  "py_int64 (Num r) = Inr (py_int r)"
| "py_int64 Nan = Inl ValueError"
| "py_int64 x = Inl OverflowError"

text \<open>The rounded product and quotient of two numbers, as numbers.\<close>

definition mul64 :: "real \<Rightarrow> real \<Rightarrow> real" where
  "mul64 a b = rnd64 (a * b)"

definition div64 :: "real \<Rightarrow> real \<Rightarrow> real" where
  "div64 a b = rnd64 (a / b)"

subsection \<open>The library results\<close>

text \<open>
  What the source reads from pandas: \<^verbatim>\<open>float(df['value'].mean())\<close> of the column with its
  missing cells, \<^verbatim>\<open>(ts.max() - ts.min()).total_seconds()\<close> of the parsed timestamps, and
  \<^verbatim>\<open>vals.mean()\<close> and \<^verbatim>\<open>vals.std()\<close> of the non-missing readings. The algorithms of the
  library are not part of the repository: each result is a parameter, and a theorem
  stated for every \<open>lib\<close> holds for the numbers that the installed pandas returns.
\<close>

record pandas =
  mean_skipna :: "real option list \<Rightarrow> float"
  span_seconds :: "int option list \<Rightarrow> float"
  mean64 :: "real list \<Rightarrow> float"
  std64 :: "real list \<Rightarrow> float"

text \<open>
  One library for the examples: every statistic is the exact value rounded once. On a
  series whose mean and sample standard deviation are integers this is what the two-pass
  computation of pandas returns as well, every intermediate result being exact.
\<close>

definition correctly_rounded :: pandas where
  "correctly_rounded =
     \<lparr>mean_skipna = (\<lambda>cells. if dropna cells = [] then Nan else to_float (pd_mean (dropna cells))),
      span_seconds = (\<lambda>cells. if dropna cells = [] then Nan
         else to_float (real_of_int (Max (set (dropna cells)) - Min (set (dropna cells))) / 1000000000)),
      mean64 = (\<lambda>vals. if vals = [] then Nan else to_float (pd_mean vals)),
      std64 = (\<lambda>vals. if length vals < 2 then Nan else to_float (pd_std vals))\<rparr>"

subsection \<open>The validators and the tabular estimator in floating point\<close>

text \<open>
  \<^verbatim>\<open>anomaly_detection_image\<close> with \<^verbatim>\<open>float(arr.var())\<close> as numpy computes it on the
  \<^verbatim>\<open>float32\<close> array: the parameter \<open>var\<close> gives that number (a \<^verbatim>\<open>float32\<close> converts to a
  \<^verbatim>\<open>float\<close> without rounding), or \<open>None\<close> for NaN. The two comparisons are exact.
\<close>

definition anomaly_detection_image_np :: "(nat list \<Rightarrow> real option) \<Rightarrow> image \<Rightarrow> bool \<times> msg" where
  "anomaly_detection_image_np var img =
     (let variance = var (lum img) in
      if nan_less variance 50 then (False, Low_pixel_variance variance)
      else let w = width img; h = height img in
        if w * h < 10000 then (False, Small_image w h)
        else (True, Image_passes variance))"

text \<open>
  \<^verbatim>\<open>anomaly_detection_iot\<close>: \<^verbatim>\<open>(vals - mean) / (std if std>0 else 1)\<close> is one rounded
  subtraction and one rounded division per reading, \<^verbatim>\<open>abs(zscores) > 3\<close> a comparison of
  the rounded quotient. No operation of the function raises.
\<close>

datatype iot_msg =
    No_value_column
  | Too_few_readings
  | Anomalies_detected nat
  | Flat_readings
  | Readings_ok float float nat

definition zscore64 :: "pandas \<Rightarrow> real list \<Rightarrow> real \<Rightarrow> float" where
  "zscore64 lib vals v =
     (let mean = mean64 lib vals; std = std64 lib vals in
      fdiv (fsub (Num v) mean) (if fgt std (Num 0) then std else Num 1))"

definition zscores64 :: "pandas \<Rightarrow> real list \<Rightarrow> float list" where
  "zscores64 lib vals = map (zscore64 lib vals) vals"

definition count_anomalies64 :: "float list \<Rightarrow> nat" where
  "count_anomalies64 zs = length (filter (\<lambda>z. fgt (fabs z) (Num 3)) zs)"

definition anomaly_detection_iot_f64 :: "pandas \<Rightarrow> dataframe \<Rightarrow> bool \<times> iot_msg" where
  "anomaly_detection_iot_f64 lib df =
     (case value_col df of
        None \<Rightarrow> (False, No_value_column)
      | Some cells \<Rightarrow>
          let vals = dropna cells in
          if length vals < 3 then (False, Too_few_readings)
          else
            let mean = mean64 lib vals; std = std64 lib vals;
                anomalies = count_anomalies64 (zscores64 lib vals) in
            if anomalies > max 1 (length vals div 10) then (False, Anomalies_detected anomalies)
            else if nunique vals \<le> 2 then (False, Flat_readings)
            else (True, Readings_ok mean std anomalies))"

text \<open>
  \<^verbatim>\<open>calculate_credits_iot\<close>: the span in seconds is divided by \<^verbatim>\<open>3600.0\<close>, the result
  is replaced by \<^verbatim>\<open>1.0\<close> when that is larger, and \<^verbatim>\<open>int((avg_val * duration_hours) / 10.0)\<close>
  is a rounded product, a rounded quotient and a truncation.
\<close>

definition duration_hours64 :: "pandas \<Rightarrow> dataframe \<Rightarrow> float" where
  "duration_hours64 lib df =
     (case timestamp_col df of
        None \<Rightarrow> Num 1
      | Some Parse_error \<Rightarrow> Num 1
      | Some (Datetimes cells) \<Rightarrow> py_max (fdiv (span_seconds lib cells) (Num 3600)) (Num 1))"

definition calculate_credits_iot_f64 :: "pandas \<Rightarrow> dataframe \<Rightarrow> error + int" where
  "calculate_credits_iot_f64 lib df =
     (let duration_hours = duration_hours64 lib df in
      case value_col df of
        None \<Rightarrow> Inl KeyError
      | Some cells \<Rightarrow>
          let avg_val = mean_skipna lib cells in
          (case py_int64 (fdiv (fmul avg_val duration_hours) (Num 10)) of
             Inl e \<Rightarrow> Inl e
           | Inr k \<Rightarrow> Inr (max 1 k)))"

subsection \<open>SHA-256 (\<^verbatim>\<open>hashlib.sha256\<close>) and the simulated transaction hash\<close>

text \<open>
  The digest of FIPS 180-4 on byte lists; the round constants and the initial state are
  written in decimal. A 32-bit word is a natural number below
  \<open>2 ^ 32\<close>, with the wrap-around of the additions written out. A \<open>string\<close> is the list
  of the bytes of the UTF-8 encoding of the Python string.
\<close>

type_synonym sha_state = "nat \<times> nat \<times> nat \<times> nat \<times> nat \<times> nat \<times> nat \<times> nat"

definition K256 :: "nat list" where
  "K256 =
     [1116352408, 1899447441, 3049323471, 3921009573,
      961987163, 1508970993, 2453635748, 2870763221,
      3624381080, 310598401, 607225278, 1426881987,
      1925078388, 2162078206, 2614888103, 3248222580,
      3835390401, 4022224774, 264347078, 604807628,
      770255983, 1249150122, 1555081692, 1996064986,
      2554220882, 2821834349, 2952996808, 3210313671,
      3336571891, 3584528711, 113926993, 338241895,
      666307205, 773529912, 1294757372, 1396182291,
      1695183700, 1986661051, 2177026350, 2456956037,
      2730485921, 2820302411, 3259730800, 3345764771,
      3516065817, 3600352804, 4094571909, 275423344,
      430227734, 506948616, 659060556, 883997877,
      958139571, 1322822218, 1537002063, 1747873779,
      1955562222, 2024104815, 2227730452, 2361852424,
      2428436474, 2756734187, 3204031479, 3329325298]"

definition H256 :: sha_state where
  "H256 = (1779033703, 3144134277, 1013904242, 2773480762, 1359893119, 2600822924, 528734635, 1541459225)"

definition add32 :: "nat \<Rightarrow> nat \<Rightarrow> nat" where
  "add32 x y = (x + y) mod 4294967296"

definition rotr :: "nat \<Rightarrow> nat \<Rightarrow> nat" where
  "rotr n x = x div 2 ^ n + (x mod 2 ^ n) * 2 ^ (32 - n)"

definition not32 :: "nat \<Rightarrow> nat" where
  "not32 x = 4294967295 - x"

definition Ch :: "nat \<Rightarrow> nat \<Rightarrow> nat \<Rightarrow> nat" where
  "Ch e f g = (e AND f) XOR (not32 e AND g)"

definition Maj :: "nat \<Rightarrow> nat \<Rightarrow> nat \<Rightarrow> nat" where
  "Maj a b c = (a AND b) XOR (a AND c) XOR (b AND c)"

definition Sigma0 :: "nat \<Rightarrow> nat" where
  "Sigma0 x = rotr 2 x XOR rotr 13 x XOR rotr 22 x"

definition Sigma1 :: "nat \<Rightarrow> nat" where
  "Sigma1 x = rotr 6 x XOR rotr 11 x XOR rotr 25 x"

definition sigma0 :: "nat \<Rightarrow> nat" where
  "sigma0 x = rotr 7 x XOR rotr 18 x XOR x div 2 ^ 3"

definition sigma1 :: "nat \<Rightarrow> nat" where
  "sigma1 x = rotr 17 x XOR rotr 19 x XOR x div 2 ^ 10"

text \<open>Padding: the byte 128, zero bytes up to 56 modulo 64, the bit length on 8 bytes.\<close>

definition sha_pad :: "nat list \<Rightarrow> nat list" where
  "sha_pad bytes =
     (let l = length bytes in
      bytes @ [128] @ replicate ((119 - l mod 64) mod 64) 0
        @ map (\<lambda>i. (8 * l) div 2 ^ (8 * (7 - i)) mod 256) [0, 1, 2, 3, 4, 5, 6, 7])"

fun block_words :: "nat list \<Rightarrow> nat list" where
  "block_words (a # b # c # d # rest) =
     (((a * 256 + b) * 256 + c) * 256 + d) # block_words rest"
| "block_words _ = []"

fun iterate :: "nat \<Rightarrow> ('a \<Rightarrow> 'a) \<Rightarrow> 'a \<Rightarrow> 'a" where
  "iterate 0 f x = x"
| "iterate (Suc n) f x = iterate n f (f x)"

text \<open>The message schedule is built with the most recent word first.\<close>

definition next_word :: "nat list \<Rightarrow> nat list" where
  "next_word w =
     add32 (add32 (add32 (sigma1 (w ! 1)) (w ! 6)) (sigma0 (w ! 14))) (w ! 15) # w"

definition schedule :: "nat list \<Rightarrow> nat list" where
  "schedule m = rev (iterate 48 next_word (rev m))"

fun sha_round :: "nat \<times> nat \<Rightarrow> sha_state \<Rightarrow> sha_state" where
  "sha_round (k, wt) (a, b, c, d, e, f, g, h) =
     (let t1 = add32 (add32 (add32 (add32 h (Sigma1 e)) (Ch e f g)) k) wt;
          t2 = add32 (Sigma0 a) (Maj a b c)
      in (add32 t1 t2, a, b, c, add32 d t1, e, f, g))"

fun add_state :: "sha_state \<Rightarrow> sha_state \<Rightarrow> sha_state" where
  "add_state (a, b, c, d, e, f, g, h) (a', b', c', d', e', f', g', h') =
     (add32 a a', add32 b b', add32 c c', add32 d d', add32 e e', add32 f f',
      add32 g g', add32 h h')"

definition compress :: "sha_state \<Rightarrow> nat list \<Rightarrow> sha_state" where
  "compress st block =
     add_state st (fold sha_round (zip K256 (schedule (block_words block))) st)"

fun sha_blocks :: "nat \<Rightarrow> nat list \<Rightarrow> sha_state \<Rightarrow> sha_state" where
  "sha_blocks 0 bytes st = st"
| "sha_blocks (Suc n) bytes st = sha_blocks n (drop 64 bytes) (compress st (take 64 bytes))"

definition sha256 :: "nat list \<Rightarrow> sha_state" where
  "sha256 bytes =
     (let padded = sha_pad bytes in sha_blocks (length padded div 64) padded H256)"

definition hex_digit :: "nat \<Rightarrow> char" where
  "hex_digit n = ''0123456789abcdef'' ! (n mod 16)"

definition hex32 :: "nat \<Rightarrow> string" where
  "hex32 w = map (\<lambda>i. hex_digit (w div 16 ^ (7 - i))) [0, 1, 2, 3, 4, 5, 6, 7]"

fun hexdigest :: "sha_state \<Rightarrow> string" where
  "hexdigest (a, b, c, d, e, f, g, h) =
     hex32 a @ hex32 b @ hex32 c @ hex32 d @ hex32 e @ hex32 f @ hex32 g @ hex32 h"

definition encode :: "string \<Rightarrow> nat list" where
  "encode s = map of_char s"

definition sha256_hexdigest :: "string \<Rightarrow> string" where
  "sha256_hexdigest s = hexdigest (sha256 (encode s))"

text \<open>
  \<^verbatim>\<open>app.py\<close>, \<^verbatim>\<open>simulate_tx_hash(record_uuid)\<close>: the payload is the argument, a bar and the
  text of \<^verbatim>\<open>time.time()\<close>, which is the second argument here.
\<close>

definition simulate_tx_hash :: "string \<Rightarrow> string \<Rightarrow> string" where
  "simulate_tx_hash record_uuid time_time =
     (let payload = record_uuid @ ''|'' @ time_time in sha256_hexdigest payload)"

text \<open>\<^verbatim>\<open>app1.py\<close>, \<^verbatim>\<open>simulate_tx_hash(seed)\<close>.\<close>

definition simulate_tx_hash1 :: "string \<Rightarrow> string" where
  "simulate_tx_hash1 seed = sha256_hexdigest seed"

subsection \<open>The registry table and the two buttons of \<^verbatim>\<open>app.py\<close>\<close>

text \<open>
  A table is the list of its rows in insertion order, with the counter of
  \<^verbatim>\<open>AUTOINCREMENT\<close>: the largest row id handed out so far.
\<close>

record registry_row =
  row_id :: nat
  record_uuid :: string
  created_at :: string
  project_name :: string
  data_type :: string
  credits :: int
  mrv_status :: string
  mrv_msg :: msg
  tx_hash :: "string option"

record registry =
  rows :: "registry_row list"
  seq :: nat

definition init_db :: registry where
  "init_db = \<lparr>rows = [], seq = 0\<rparr>"

text \<open>The primary key: row ids are distinct and none exceeds the counter.\<close>

definition wf_registry :: "registry \<Rightarrow> bool" where
  "wf_registry conn =
     (distinct (map row_id (rows conn)) \<and> list_all (\<lambda>r. row_id r \<le> seq conn) (rows conn))"

text \<open>What the handlers read from outside: a fresh UUID and the two clocks, as text.\<close>

record env =
  uuid4 :: string
  utcnow :: string
  time_time :: string

definition save_record ::
  "registry \<Rightarrow> env \<Rightarrow> string \<Rightarrow> string \<Rightarrow> int \<Rightarrow> string \<Rightarrow> msg \<Rightarrow> string option
     \<Rightarrow> registry \<times> string" where
  "save_record conn e project data credit status note tx =
     (let record_uuid = uuid4 e; created_at = utcnow e in
      (conn\<lparr>rows := rows conn @
          [\<lparr>row_id = Suc (seq conn), record_uuid = record_uuid, created_at = created_at,
            project_name = project, data_type = data, credits = credit,
            mrv_status = status, mrv_msg = note, tx_hash = tx\<rparr>],
         seq := Suc (seq conn)\<rparr>,
       record_uuid))"

text \<open>
  An uploaded file: its name, and what \<^verbatim>\<open>pd.read_csv\<close> and \<^verbatim>\<open>Image.open(...).convert("RGB")\<close>
  make of its content (\<open>None\<close> for an exception). The \<open>value\<close> column of a frame is numeric.
\<close>

record uploaded_file =
  file_name :: string
  read_csv :: "dataframe option"
  image_open :: "image option"

definition lower_char :: "char \<Rightarrow> char" where
  "lower_char c =
     (case map_of (zip ''ABCDEFGHIJKLMNOPQRSTUVWXYZ'' ''abcdefghijklmnopqrstuvwxyz'') c of
        None \<Rightarrow> c
      | Some l \<Rightarrow> l)"

definition lower :: "string \<Rightarrow> string" where
  "lower s = map lower_char s"

definition endswith :: "string \<Rightarrow> string \<Rightarrow> bool" where
  "endswith s suffix =
     (length suffix \<le> length s \<and> drop (length s - length suffix) s = suffix)"

datatype call =
    Call_anomaly_detection_iot
  | Call_anomaly_detection_image
  | Call_calculate_credits_iot
  | Call_calculate_credits_image
  | Call_save_record
  | Call_calculate_carbon_credits
  | Call_add_credit

datatype ui =
    Warning_upload_first
  | Error_parse_csv
  | Error_open_image
  | Success_verified int
  | Error_rejected
  | Info_no_unissued
  | Success_tx string
  | Exception error

text \<open>
  The handler of the button "Verify and Calculate": the calls it makes in order, what it
  shows, and the registry afterwards. An exception of a callee leaves the registry as it
  was.
\<close>

record outcome =
  calls :: "call list"
  shown :: ui
  db :: registry

definition verify_and_calculate ::
  "registry \<Rightarrow> env \<Rightarrow> string \<Rightarrow> uploaded_file option \<Rightarrow> outcome" where
  "verify_and_calculate conn e project upload =
     (case upload of
        None \<Rightarrow> \<lparr>calls = [], shown = Warning_upload_first, db = conn\<rparr>
      | Some file \<Rightarrow>
          if endswith (lower (file_name file)) ''.csv'' then
            (case read_csv file of
               None \<Rightarrow> \<lparr>calls = [], shown = Error_parse_csv, db = conn\<rparr>
             | Some df \<Rightarrow>
                 (case anomaly_detection_iot df of
                    Inl err \<Rightarrow>
                      \<lparr>calls = [Call_anomaly_detection_iot], shown = Exception err, db = conn\<rparr>
                  | Inr (ok, note) \<Rightarrow>
                      if ok then
                        (case calculate_credits_iot df of
                           Inl err \<Rightarrow>
                             \<lparr>calls = [Call_anomaly_detection_iot, Call_calculate_credits_iot],
                              shown = Exception err, db = conn\<rparr>
                         | Inr credit \<Rightarrow>
                             \<lparr>calls = [Call_anomaly_detection_iot, Call_calculate_credits_iot,
                                       Call_save_record],
                              shown = Success_verified credit,
                              db = fst (save_record conn e project ''iot_csv'' credit
                                     ''verified'' note None)\<rparr>)
                      else
                        \<lparr>calls = [Call_anomaly_detection_iot, Call_save_record],
                         shown = Error_rejected,
                         db = fst (save_record conn e project ''iot_csv'' 0
                                ''rejected'' note None)\<rparr>))
          else
            (case image_open file of
               None \<Rightarrow> \<lparr>calls = [], shown = Error_open_image, db = conn\<rparr>
             | Some img \<Rightarrow>
                 (case anomaly_detection_image img of
                    (ok, note) \<Rightarrow>
                      if ok then
                        (let credit = calculate_credits_image img in
                         \<lparr>calls = [Call_anomaly_detection_image, Call_calculate_credits_image,
                                   Call_save_record],
                          shown = Success_verified credit,
                          db = fst (save_record conn e project ''image'' credit
                                 ''verified'' note None)\<rparr>)
                      else
                        \<lparr>calls = [Call_anomaly_detection_image, Call_save_record],
                         shown = Error_rejected,
                         db = fst (save_record conn e project ''image'' 0
                                ''rejected'' note None)\<rparr>)))"

text \<open>
  The handler of the button "Issue simulated tx". The query keeps the verified rows whose
  hash is NULL or empty and takes the one of largest id.
\<close>

definition unissued_verified :: "registry_row \<Rightarrow> bool" where
  "unissued_verified r =
     (mrv_status r = ''verified'' \<and> (tx_hash r = None \<or> tx_hash r = Some ''''))"

definition latest :: "registry_row list \<Rightarrow> registry_row option" where
  "latest rs =
     (case rs of
        [] \<Rightarrow> None
      | r # rest \<Rightarrow> Some (fold (\<lambda>x best. if row_id best < row_id x then x else best) rest r))"

definition update_tx_hash :: "registry_row list \<Rightarrow> string \<Rightarrow> nat \<Rightarrow> registry_row list" where
  "update_tx_hash rs tx rec_id =
     map (\<lambda>r. if row_id r = rec_id then r\<lparr>tx_hash := Some tx\<rparr> else r) rs"

definition issue :: "registry \<Rightarrow> env \<Rightarrow> ui \<times> registry" where
  "issue conn e =
     (case latest (filter unissued_verified (rows conn)) of
        None \<Rightarrow> (Info_no_unissued, conn)
      | Some row \<Rightarrow>
          (let tx = simulate_tx_hash (record_uuid row) (time_time e) in
           (Success_tx tx, conn\<lparr>rows := update_tx_hash (rows conn) tx (row_id row)\<rparr>)))"

text \<open>A session of \<^verbatim>\<open>app.py\<close>: button presses in order.\<close>

datatype action = Verify env string "uploaded_file option" | Issue env

fun step :: "action \<Rightarrow> registry \<Rightarrow> registry" where
  "step (Verify e project upload) conn = db (verify_and_calculate conn e project upload)"
| "step (Issue e) conn = snd (issue conn e)"

definition run :: "registry \<Rightarrow> action list \<Rightarrow> registry" where
  "run conn actions = fold step actions conn"

definition hash_set :: "registry_row \<Rightarrow> bool" where
  "hash_set r = (tx_hash r \<noteq> None \<and> tx_hash r \<noteq> Some '''')"

text \<open>The artifact a handler works on, and the validator for its kind.\<close>

datatype artifact = Tabular dataframe | Picture image

definition uploaded_artifact :: "uploaded_file option \<Rightarrow> artifact option" where
  "uploaded_artifact upload =
     (case upload of
        None \<Rightarrow> None
      | Some file \<Rightarrow>
          if endswith (lower (file_name file)) ''.csv''
          then map_option Tabular (read_csv file)
          else map_option Picture (image_open file))"

fun validate :: "artifact \<Rightarrow> error + bool \<times> msg" where
  "validate (Tabular df) = anomaly_detection_iot df"
| "validate (Picture img) = Inr (anomaly_detection_image img)"

fun validator_call :: "artifact \<Rightarrow> call" where
  "validator_call (Tabular df) = Call_anomaly_detection_iot"
| "validator_call (Picture img) = Call_anomaly_detection_image"

fun estimate :: "artifact \<Rightarrow> error + int" where
  "estimate (Tabular df) = calculate_credits_iot df"
| "estimate (Picture img) = Inr (calculate_credits_image img)"

fun estimator_call :: "artifact \<Rightarrow> call" where
  "estimator_call (Tabular df) = Call_calculate_credits_iot"
| "estimator_call (Picture img) = Call_calculate_credits_image"

fun artifact_kind :: "artifact \<Rightarrow> string" where
  "artifact_kind (Tabular df) = ''iot_csv''"
| "artifact_kind (Picture img) = ''image''"

subsection \<open>The three tables and the upload page of \<^verbatim>\<open>app1.py\<close>\<close>

datatype credit_notes = Variance_note "real option" | Text_note string

record project_row =
  p_id :: nat
  p_uuid :: string
  p_name :: string
  p_location :: string
  p_description :: string
  p_created_at :: string
  p_tx_hash :: "string option"

record credit_row =
  c_id :: nat
  c_uuid :: string
  c_project_id :: nat
  c_data_type :: string
  c_credits :: "real option"
  c_status :: string
  c_notes :: credit_notes
  c_timestamp :: string
  c_tx_hash :: "string option"

record complaint_row =
  m_id :: nat
  m_uuid :: string
  m_project_id :: nat
  m_complaint :: string
  m_status :: string
  m_created_at :: string
  m_tx_hash :: "string option"

record store =
  projects :: "project_row list"
  projects_seq :: nat
  credits_tbl :: "credit_row list"
  credits_seq :: nat
  complaints :: "complaint_row list"
  complaints_seq :: nat

definition init_db1 :: store where
  "init_db1 =
     \<lparr>projects = [], projects_seq = 0, credits_tbl = [], credits_seq = 0,
      complaints = [], complaints_seq = 0\<rparr>"

text \<open>
  The column \<^verbatim>\<open>uuid\<close> is \<^verbatim>\<open>UNIQUE\<close>: inserting a UUID that the table holds raises
  \<^verbatim>\<open>sqlite3.IntegrityError\<close>. The text of \<^verbatim>\<open>str(credits)\<close> is the field \<open>str_credits\<close> of
  the environment of \<open>add_credit\<close>.
\<close>

definition add_project ::
  "store \<Rightarrow> env \<Rightarrow> string \<Rightarrow> string \<Rightarrow> string \<Rightarrow> error + store \<times> string \<times> string" where
  "add_project conn e name location description =
     (let uid = uuid4 e; created = utcnow e;
          tx = simulate_tx_hash1 (uid @ created)
      in if uid \<in> set (map p_uuid (projects conn)) then Inl IntegrityError
         else Inr (conn\<lparr>projects := projects conn @
                     [\<lparr>p_id = Suc (projects_seq conn), p_uuid = uid, p_name = name,
                       p_location = location, p_description = description,
                       p_created_at = created, p_tx_hash = Some tx\<rparr>],
                   projects_seq := Suc (projects_seq conn)\<rparr>, uid, tx))"

definition add_credit ::
  "store \<Rightarrow> env \<Rightarrow> string \<Rightarrow> nat \<Rightarrow> string \<Rightarrow> real option \<Rightarrow> string \<Rightarrow> credit_notes
     \<Rightarrow> error + store \<times> string \<times> string" where
  "add_credit conn e str_credits project_id data credit status notes =
     (let uid = uuid4 e; ts = utcnow e;
          tx = simulate_tx_hash1 (uid @ str_credits @ ts)
      in if uid \<in> set (map c_uuid (credits_tbl conn)) then Inl IntegrityError
         else Inr (conn\<lparr>credits_tbl := credits_tbl conn @
                     [\<lparr>c_id = Suc (credits_seq conn), c_uuid = uid, c_project_id = project_id,
                       c_data_type = data, c_credits = credit, c_status = status,
                       c_notes = notes, c_timestamp = ts, c_tx_hash = Some tx\<rparr>],
                   credits_seq := Suc (credits_seq conn)\<rparr>, uid, tx))"

definition add_complaint ::
  "store \<Rightarrow> env \<Rightarrow> nat \<Rightarrow> string \<Rightarrow> error + store \<times> string \<times> string" where
  "add_complaint conn e project_id complaint =
     (let uid = uuid4 e; ts = utcnow e;
          tx = simulate_tx_hash1 (uid @ complaint @ ts)
      in if uid \<in> set (map m_uuid (complaints conn)) then Inl IntegrityError
         else Inr (conn\<lparr>complaints := complaints conn @
                     [\<lparr>m_id = Suc (complaints_seq conn), m_uuid = uid,
                       m_project_id = project_id, m_complaint = complaint,
                       m_status = ''pending'', m_created_at = ts, m_tx_hash = Some tx\<rparr>],
                   complaints_seq := Suc (complaints_seq conn)\<rparr>, uid, tx))"

text \<open>\<^verbatim>\<open>round(x, 2)\<close>: to the nearest hundredth, a tie to the even one.\<close>

definition round2 :: "real \<Rightarrow> real" where
  "round2 x =
     (let y = x * 100; f = \<lfloor>y\<rfloor>; r = y - of_int f
      in of_int (if r < 1 / 2 then f else if 1 / 2 < r then f + 1
                 else if even f then f else f + 1) / 100)"

definition calculate_carbon_credits :: "image \<Rightarrow> real option \<times> real option" where
  "calculate_carbon_credits img =
     (let variance = luminance_variance img;
          credit = map_option (\<lambda>v. round2 (v / 100)) variance
      in (credit, variance))"

text \<open>
  The page "Upload Data and Verify" once a file is uploaded; \<open>None\<close> is a file that
  \<^verbatim>\<open>Image.open\<close> rejects.
\<close>

record outcome1 =
  calls1 :: "call list"
  db1 :: store

definition upload_and_verify ::
  "store \<Rightarrow> env \<Rightarrow> string \<Rightarrow> nat \<Rightarrow> image option \<Rightarrow> error + outcome1" where
  "upload_and_verify conn e str_credits selected upload =
     (if projects conn = [] then Inr \<lparr>calls1 = [], db1 = conn\<rparr>
      else
        (case upload of
           None \<Rightarrow> Inl UnidentifiedImageError
         | Some img \<Rightarrow>
             (case calculate_carbon_credits img of
                (credit, variance) \<Rightarrow>
                  (case add_credit conn e str_credits selected ''image'' credit ''verified''
                          (Variance_note variance) of
                     Inl err \<Rightarrow> Inl err
                   | Inr (conn', uid, tx) \<Rightarrow>
                       Inr \<lparr>calls1 = [Call_calculate_carbon_credits, Call_add_credit],
                            db1 = conn'\<rparr>))))"

text \<open>Example inputs.\<close>

definition gray_200x200 :: image where
  "gray_200x200 = \<lparr>width = 200, height = 200, lum = replicate 40000 128\<rparr>"

definition stripes_50x50 :: image where
  "stripes_50x50 = \<lparr>width = 50, height = 50, lum = replicate 1250 0 @ replicate 1250 20\<rparr>"

definition stripes_100x100 :: "nat \<Rightarrow> image" where
  "stripes_100x100 v = \<lparr>width = 100, height = 100, lum = replicate 5000 0 @ replicate 5000 v\<rparr>"

definition half_hour_csv :: dataframe where
  "half_hour_csv =
     \<lparr>value_col = Some [Some 40, Some 39, Some 41],
      timestamp_col = Some (Datetimes [Some 0, Some 900000000000, Some 1800000000000])\<rparr>"

definition example_env :: env where
  "example_env =
     \<lparr>uuid4 = ''0f8fad5b-d9cb-469f-a165-70867728950e'', utcnow = ''2024-01-01T00:00:00'',
      time_time = ''1704067200.0''\<rparr>"

definition issued_row :: registry_row where
  "issued_row =
     \<lparr>row_id = 1, record_uuid = ''7c9e6679-7425-40de-944b-e07fc1f90ae7'',
      created_at = ''2023-12-31T10:00:00'', project_name = ''Demo Mangrove Project'',
      data_type = ''image'', credits = 1, mrv_status = ''verified'',
      mrv_msg = Image_passes (Some 400), tx_hash = Some ''5f2b''\<rparr>"

definition rejected_row :: registry_row where
  "rejected_row =
     \<lparr>row_id = 2, record_uuid = ''16fd2706-8baf-433b-82eb-8c7fada847da'',
      created_at = ''2023-12-31T11:00:00'', project_name = ''Demo Mangrove Project'',
      data_type = ''image'', credits = 0, mrv_status = ''rejected'',
      mrv_msg = Low_pixel_variance (Some 0), tx_hash = None\<rparr>"

definition example_registry :: registry where
  "example_registry = \<lparr>rows = [issued_row, rejected_row], seq = 2\<rparr>"

definition gray_upload :: uploaded_file where
  "gray_upload = \<lparr>file_name = ''Gray.PNG'', read_csv = None, image_open = Some gray_200x200\<rparr>"

definition stripes_upload :: uploaded_file where
  "stripes_upload =
     \<lparr>file_name = ''stripes.png'', read_csv = None, image_open = Some (stripes_100x100 40)\<rparr>"

definition one_project_store :: store where
  "one_project_store =
     \<lparr>projects =
        [\<lparr>p_id = 1, p_uuid = ''3f333df6-90a4-4fda-8dd3-9485d27cee36'', p_name = ''Demo Mangrove'',
          p_location = ''10.0,20.0'', p_description = ''Demo project for Blue Carbon'',
          p_created_at = ''2023-12-31T09:00:00'', p_tx_hash = Some ''9a0c''\<rparr>],
      projects_seq = 1, credits_tbl = [], credits_seq = 0, complaints = [],
      complaints_seq = 0\<rparr>"

definition unissued_row :: registry_row where
  "unissued_row =
     \<lparr>row_id = 3, record_uuid = ''6fa459ea-ee8a-3ca4-894e-db77e160355e'',
      created_at = ''2023-12-31T12:00:00'', project_name = ''Demo Mangrove Project'',
      data_type = ''iot_csv'', credits = 4, mrv_status = ''verified'',
      mrv_msg = Iot_readings_ok 40 1 0, tx_hash = None\<rparr>"

definition pending_registry :: registry where
  "pending_registry = \<lparr>rows = [issued_row, rejected_row, unissued_row], seq = 3\<rparr>"

definition sq_dev :: "real list \<Rightarrow> real" where
  "sq_dev vals = sum_list (map (\<lambda>v. (v - pd_mean vals)\<^sup>2) vals)"

definition constant_csv :: dataframe where
  "constant_csv = \<lparr>value_col = Some [Some 10, None, Some 10, Some 10], timestamp_col = None\<rparr>"









definition slow_csv :: dataframe where
  "slow_csv =
     \<lparr>value_col = Some [Some 74, Some 75, Some 76],
      timestamp_col = Some (Datetimes [Some 0, Some 2640000000000, Some 5280000000000])\<rparr>"

definition boundary_series :: "real list" where
  "boundary_series = [31, - 31, 0, 0, 0, 0, 0, 0, 0, 0, 0, 0, 0, 0, 0, 0, 0, 0, 0]"

definition boundary_csv :: dataframe where
  "boundary_csv = \<lparr>value_col = Some (map Some boundary_series), timestamp_col = None\<rparr>"

section \<open>Theorems\<close>

text \<open>
  C1. For every decoded image the image validator passes exactly when the luminance
  variance is at least 50 and the pixel count \<open>width * height\<close> is at least 10000; when the
  variance is below 50 it fails with the low-variance reason, otherwise when the pixel
  count is below 10000 it fails with the too-small reason; and for two images of the same
  size, if the one of smaller variance passes then so does the other. The luminance
  variance is the number that \<^verbatim>\<open>float(arr.var())\<close> returns, whatever numpy computes on the
  \<^verbatim>\<open>float32\<close> array: the statement holds for every \<open>var\<close> that is a number on a non-empty
  array.
\<close>

theorem image_validator_thresholds:
  assumes "wf_image img" and "lum img \<noteq> [] \<Longrightarrow> var (lum img) \<noteq> None"
  shows "(fst (anomaly_detection_image_np var img) \<longleftrightarrow>
            nan_ge (var (lum img)) 50 \<and> 10000 \<le> width img * height img)
       \<and> (nan_less (var (lum img)) 50 \<longrightarrow>
            anomaly_detection_image_np var img = (False, Low_pixel_variance (var (lum img))))
       \<and> (\<not> nan_less (var (lum img)) 50 \<and> width img * height img < 10000 \<longrightarrow>
            anomaly_detection_image_np var img = (False, Small_image (width img) (height img)))
       \<and> (\<forall>img'. width img' = width img \<and> height img' = height img
              \<and> nan_le (var (lum img)) (var (lum img'))
              \<and> fst (anomaly_detection_image_np var img)
            \<longrightarrow> fst (anomaly_detection_image_np var img'))"
proof -
  have some: "fst (anomaly_detection_image_np var i) \<longleftrightarrow>
      50 \<le> v \<and> 10000 \<le> width i * height i" if "var (lum i) = Some v" for i v
    using that by (auto simp: anomaly_detection_image_np_def Let_def)
  have pass_iff: "fst (anomaly_detection_image_np var img) \<longleftrightarrow>
      nan_ge (var (lum img)) 50 \<and> 10000 \<le> width img * height img"
  proof (cases "var (lum img)")
    case None
    with assms(2) have "lum img = []" by blast
    with assms(1) have "length ([] :: nat list) = width img * height img"
      by (simp only: wf_image_def)
    then have "width img * height img < 10000"
      by (simp only: list.size)
    with None show ?thesis
      by (simp add: anomaly_detection_image_np_def Let_def)
  next
    case (Some v)
    then show ?thesis by (simp add: some)
  qed
  have mono: "fst (anomaly_detection_image_np var i')"
    if "width i' = width img" "height i' = height img"
       "nan_le (var (lum img)) (var (lum i'))"
       "fst (anomaly_detection_image_np var img)" for i'
  proof -
    from that(3) obtain a b where ab: "var (lum img) = Some a"
        "var (lum i') = Some b" "a \<le> b"
      by (cases "var (lum img)"; cases "var (lum i')") auto
    from that(4) ab(1) have "50 \<le> a" "10000 \<le> width img * height img"
      by (simp_all add: some)
    with ab that(1,2) show ?thesis
      by (simp add: some)
  qed
  show ?thesis
    using pass_iff mono
    by (auto simp: anomaly_detection_image_np_def Let_def)
qed

theorem image_validator_thresholds_witness:
  "anomaly_detection_image_np (\<lambda>l. np_var (map real l)) gray_200x200 =
     (False, Low_pixel_variance (Some 0))
   \<and> anomaly_detection_image_np (\<lambda>l. np_var (map real l)) stripes_50x50 =
     (False, Small_image 50 50)
   \<and> fst (anomaly_detection_image_np (\<lambda>l. np_var (map real l)) (stripes_100x100 20))
   \<and> fst (anomaly_detection_image_np (\<lambda>l. np_var (map real l)) (stripes_100x100 40))"
proof -
  let ?var = "\<lambda>l. np_var (map real l)"
  have v1: "?var (lum gray_200x200) = Some 0"
    by (simp add: np_var_def np_mean_def gray_200x200_def sum_list_replicate)
  have v2: "?var (lum stripes_50x50) = Some 100"
    by (simp add: np_var_def np_mean_def stripes_50x50_def sum_list_replicate)
  have v3: "?var (lum (stripes_100x100 20)) = Some 100"
    by (simp add: np_var_def np_mean_def stripes_100x100_def sum_list_replicate)
  have v4: "?var (lum (stripes_100x100 40)) = Some 400"
    by (simp add: np_var_def np_mean_def stripes_100x100_def sum_list_replicate)
  have n: "l \<noteq> [] \<Longrightarrow> ?var l \<noteq> None" for l
    by (simp add: np_var_def)
  have w1: "wf_image gray_200x200"
    by (simp add: wf_image_def gray_200x200_def)
  have w2: "wf_image stripes_50x50"
    by (simp add: wf_image_def stripes_50x50_def)
  have w3: "wf_image (stripes_100x100 v)" for v
    by (simp add: wf_image_def stripes_100x100_def)
  have s: "width (stripes_100x100 v) = 100" "height (stripes_100x100 v) = 100"
      "width stripes_50x50 = 50" "height stripes_50x50 = 50" for v
    by (simp_all add: stripes_100x100_def stripes_50x50_def)
  from image_validator_thresholds [of gray_200x200 ?var, OF w1 n] v1
  have a: "anomaly_detection_image_np ?var gray_200x200 = (False, Low_pixel_variance (Some 0))"
    by simp
  from image_validator_thresholds [of stripes_50x50 ?var, OF w2 n] v2 s
  have b: "anomaly_detection_image_np ?var stripes_50x50 = (False, Small_image 50 50)"
    by simp
  from image_validator_thresholds [of "stripes_100x100 20" ?var, OF w3 n] v3 s
  have c: "fst (anomaly_detection_image_np ?var (stripes_100x100 20))"
    by simp
  from image_validator_thresholds [of "stripes_100x100 20" ?var, OF w3 n] v3 v4 s c
  have d: "fst (anomaly_detection_image_np ?var (stripes_100x100 40))"
    by simp
  from a b c d show ?thesis
    by simp
qed

text \<open>The validator over exact reals is the instance at the exact population variance.\<close>

lemma anomaly_detection_image_exact:
  "anomaly_detection_image img = anomaly_detection_image_np (\<lambda>l. np_var (map real l)) img"
  by (simp add: anomaly_detection_image_def anomaly_detection_image_np_def
      luminance_variance_def)

subsection \<open>Rounding to binary64\<close>

text \<open>
  Three facts about rounding carry the examples: a number \<open>m * 2\<^sup>j\<close> with \<open>|m| < 2\<^sup>5\<^sup>3\<close> is
  its own rounding; rounding does not cross such a number; and rounding does not fall
  below a power of two.
\<close>

lemma below_overflow64: "n < 1024 \<Longrightarrow> 2 ^ n < overflow64"
  unfolding overflow64_def by (rule power_strict_increasing) simp_all

lemma round_even_of_int: "round_even (of_int k) = k"
  by (simp add: round_even_def)

lemma round_even_le: "x \<le> of_int k \<Longrightarrow> round_even x \<le> k"
proof -
  assume h: "x \<le> of_int k"
  have f: "\<lfloor>x\<rfloor> \<le> k" using h by (simp add: floor_le_iff)
  show ?thesis
  proof (cases "\<lfloor>x\<rfloor> = k")
    case True
    then have "x = of_int k" using h by linarith
    then show ?thesis by (simp add: round_even_of_int)
  next
    case False
    with f have "\<lfloor>x\<rfloor> + 1 \<le> k" by simp
    then show ?thesis using f by (simp add: round_even_def Let_def)
  qed
qed

lemma round_even_ge: "of_int k \<le> x \<Longrightarrow> k \<le> round_even x"
proof -
  assume h: "of_int k \<le> x"
  then have "k \<le> \<lfloor>x\<rfloor>" by (simp add: le_floor_iff)
  then show ?thesis by (simp add: round_even_def Let_def)
qed

lemma ulp64_pos: "0 < ulp64 x"
  by (simp add: ulp64_def)

lemma pow2_split:
  fixes a b :: int
  assumes "a \<le> b"
  shows "(2::real) powr of_int b = 2 powr of_int a * 2 ^ nat (b - a)"
proof -
  have "real_of_int b = of_int a + real (nat (b - a))"
    using assms by simp
  then have "(2::real) powr of_int b = 2 powr (of_int a + real (nat (b - a)))"
    by (simp only:)
  also have "\<dots> = 2 powr of_int a * 2 powr real (nat (b - a))"
    by (simp only: powr_add)
  also have "2 powr real (nat (b - a)) = (2::real) ^ nat (b - a)"
    by (simp add: powr_realpow)
  finally show ?thesis .
qed

text \<open>A number \<open>m * 2\<^sup>j\<close> with \<open>|m| < 2\<^sup>5\<^sup>3\<close> lies on the grid of every \<open>x\<close> that it bounds.\<close>

lemma expo64_le:
  assumes x: "x \<noteq> 0" and b: "\<bar>x\<bar> < 2 powr of_int (j + 53)" and j: "- 1074 \<le> j"
  shows "expo64 x - 52 \<le> j"
proof -
  have "log 2 \<bar>x\<bar> < of_int (j + 53)"
    using x b by (simp add: log_less_iff)
  then have "\<lfloor>log 2 \<bar>x\<bar>\<rfloor> < j + 53"
    by (simp only: floor_less_iff)
  with j show ?thesis by (simp add: expo64_def)
qed

lemma on_grid:
  assumes m: "\<bar>m\<bar> < 2 ^ 53" and j: "- 1074 \<le> j" and x: "x \<noteq> 0"
    and b: "\<bar>x\<bar> \<le> \<bar>real_of_int m * 2 powr of_int j\<bar>"
  shows "real_of_int m * 2 powr of_int j = of_int (m * 2 ^ nat (j - (expo64 x - 52))) * ulp64 x"
proof -
  have "\<bar>real_of_int m\<bar> < 2 ^ 53"
    using m by (metis of_int_abs of_int_less_numeral_power_cancel_iff)
  then have "\<bar>real_of_int m * 2 powr of_int j\<bar> < 2 ^ 53 * 2 powr of_int j"
    by (simp add: abs_mult)
  also have "\<dots> = 2 powr of_int (j + 53)"
    using pow2_split [of j "j + 53"] by simp
  finally have "\<bar>x\<bar> < 2 powr of_int (j + 53)"
    using b by linarith
  from expo64_le [OF x this j] have "expo64 x - 52 \<le> j" .
  from pow2_split [OF this] show ?thesis
    by (simp add: ulp64_def)
qed

lemma rnd64_exact:
  assumes m: "\<bar>m\<bar> < 2 ^ 53" and j: "- 1074 \<le> j"
  shows "rnd64 (real_of_int m * 2 powr of_int j) = real_of_int m * 2 powr of_int j"
proof (cases "m = 0")
  case True
  then show ?thesis by (simp add: rnd64_def)
next
  case False
  let ?x = "real_of_int m * 2 powr of_int j"
  let ?K = "m * 2 ^ nat (j - (expo64 ?x - 52))"
  from False have x: "?x \<noteq> 0" by simp
  have g: "?x = of_int ?K * ulp64 ?x"
    by (rule on_grid [OF m j x]) simp
  have "?x / ulp64 ?x = of_int ?K"
    using ulp64_pos [of ?x] by (subst g) simp
  then have "round_even (?x / ulp64 ?x) = ?K"
    by (simp only: round_even_of_int)
  then have r: "rnd64 ?x = of_int ?K * ulp64 ?x"
    using x by (simp only: rnd64_def if_False)
  show ?thesis
    by (rule trans [OF r g [symmetric]])
qed

lemma rnd64_bound:
  assumes m: "0 \<le> m" "m < 2 ^ 53" and j: "- 1074 \<le> j"
    and b: "\<bar>x\<bar> \<le> real_of_int m * 2 powr of_int j"
  shows "\<bar>rnd64 x\<bar> \<le> real_of_int m * 2 powr of_int j"
proof (cases "x = 0")
  case True
  then show ?thesis using m by (simp add: rnd64_def)
next
  case False
  let ?c = "real_of_int m * 2 powr of_int j"
  let ?K = "m * 2 ^ nat (j - (expo64 x - 52))"
  have m': "\<bar>m\<bar> < 2 ^ 53" using m by simp
  have "\<bar>x\<bar> \<le> \<bar>?c\<bar>" using b by linarith
  from on_grid [OF m' j False this] have g: "?c = of_int ?K * ulp64 x" .
  have u: "0 < ulp64 x" by (rule ulp64_pos)
  have "x \<le> ?c" "- ?c \<le> x" using b by linarith+
  then have "x / ulp64 x \<le> of_int ?K" "of_int (- ?K) \<le> x / ulp64 x"
    using u by (simp_all add: g pos_divide_le_eq pos_le_divide_eq)
  then have "round_even (x / ulp64 x) \<le> ?K" "- ?K \<le> round_even (x / ulp64 x)"
    by (simp_all only: round_even_le round_even_ge)
  then have "\<bar>round_even (x / ulp64 x)\<bar> \<le> ?K" by linarith
  then have "\<bar>real_of_int (round_even (x / ulp64 x))\<bar> \<le> of_int ?K"
    by (metis of_int_abs of_int_le_iff)
  then have "\<bar>real_of_int (round_even (x / ulp64 x))\<bar> * ulp64 x \<le> of_int ?K * ulp64 x"
    using u by (simp only: mult_le_cancel_right_pos)
  then show ?thesis
    using False u by (simp add: rnd64_def abs_mult g)
qed


lemma rnd64_eval:
  assumes "2 powr of_int e \<le> \<bar>x\<bar>" and "\<bar>x\<bar> < 2 powr of_int (e + 1)" and "- 1022 \<le> e"
  shows "rnd64 x = of_int (round_even (x / 2 powr of_int (e - 52))) * 2 powr of_int (e - 52)"
proof -
  have x: "x \<noteq> 0" using assms(1) by (smt (verit) powr_gt_zero)
  then have "of_int e \<le> log 2 \<bar>x\<bar>" "log 2 \<bar>x\<bar> < of_int e + 1"
    using assms(1,2) by (simp_all add: le_log_iff log_less_iff)
  then have "\<lfloor>log 2 \<bar>x\<bar>\<rfloor> = e"
    by (simp only: floor_eq_iff)
  with assms(3) have "expo64 x = e"
    by (simp add: expo64_def)
  with x show ?thesis
    by (simp add: rnd64_def ulp64_def)
qed

lemma to_float_dyadic:
  assumes "\<bar>m\<bar> < 2 ^ 53" and "k \<le> 1074"
  shows "to_float (real_of_int m / 2 ^ k) = Num (real_of_int m / 2 ^ k)"
proof -
  have p: "(2::real) powr of_int (- int k) = 1 / 2 ^ k"
    by (simp add: powr_minus powr_realpow divide_simps)
  have "rnd64 (real_of_int m * 2 powr of_int (- int k)) = real_of_int m * 2 powr of_int (- int k)"
    using assms by (intro rnd64_exact) simp_all
  then have r: "rnd64 (real_of_int m / 2 ^ k) = real_of_int m / 2 ^ k"
    unfolding p by simp
  have "\<bar>real_of_int m\<bar> < 2 ^ 53"
    using assms(1) by (metis of_int_abs of_int_less_numeral_power_cancel_iff)
  moreover have "\<bar>real_of_int m\<bar> / 2 ^ k \<le> \<bar>real_of_int m\<bar> / 1"
    by (rule divide_left_mono) simp_all
  ultimately have "\<bar>real_of_int m\<bar> / 2 ^ k < 2 ^ 53"
    by simp
  also have "(2::real) ^ 53 < overflow64" by (rule below_overflow64) simp
  finally have "\<bar>real_of_int m / 2 ^ k\<bar> < overflow64" by simp
  with r show ?thesis by (simp add: to_float_def)
qed

lemma to_float_int: "\<bar>m\<bar> < 2 ^ 53 \<Longrightarrow> to_float (real_of_int m) = Num (real_of_int m)"
  using to_float_dyadic [of m 0] by simp



lemma to_float_in_range:
  assumes "n < 1024" and "\<bar>x\<bar> \<le> 2 ^ n"
  shows "to_float x = Num (rnd64 x)"
proof -
  have "(2::real) powr of_int (int n) = 2 ^ n"
    by (simp add: powr_realpow)
  then have "\<bar>rnd64 x\<bar> \<le> real_of_int 1 * 2 powr of_int (int n)"
    using assms(2) by (intro rnd64_bound) simp_all
  then have "\<bar>rnd64 x\<bar> \<le> 2 ^ n"
    by (simp add: powr_realpow)
  also have "(2::real) ^ n < overflow64"
    using assms(1) by (rule below_overflow64)
  finally show ?thesis by (simp add: to_float_def)
qed

lemma small_below_overflow64: "\<bar>x\<bar> < 2 ^ 53 \<Longrightarrow> \<bar>x\<bar> < overflow64"
  using below_overflow64 [of 53] by simp

lemma quotient_in_range:
  assumes "\<bar>x\<bar> < overflow64" and "2 \<le> d"
  shows "to_float (x / d) = Num (div64 x d)"
proof -
  define B :: real where "B = 2 ^ 1023"
  have "(1024::nat) = Suc 1023" by simp
  then have "overflow64 = 2 * B"
    unfolding overflow64_def B_def by (simp only: power_Suc)
  with assms(1) have "\<bar>x\<bar> / 2 < B" by simp
  moreover have "\<bar>x\<bar> / d \<le> \<bar>x\<bar> / 2"
    using assms(2) by (intro divide_left_mono) simp_all
  moreover have "\<bar>x / d\<bar> = \<bar>x\<bar> / d"
    using assms(2) by simp
  ultimately have "\<bar>x / d\<bar> \<le> B" by linarith
  then show ?thesis
    unfolding div64_def B_def by (rule to_float_in_range [of 1023, rotated]) simp
qed

lemma to_float_numeral [simp]:
  "(numeral n :: int) < 2 ^ 53 \<Longrightarrow> to_float (numeral n) = Num (numeral n)"
  using to_float_int [of "numeral n"] by simp

lemma to_float_neg_numeral [simp]:
  "(numeral n :: int) < 2 ^ 53 \<Longrightarrow> to_float (- numeral n) = Num (- numeral n)"
  using to_float_int [of "- numeral n"] by simp

lemma to_float_0 [simp]: "to_float 0 = Num 0"
  using to_float_int [of 0] by simp

lemma to_float_1 [simp]: "to_float 1 = Num 1"
  using to_float_int [of 1] by simp

subsection \<open>The tabular estimator\<close>

lemma max_py_int: "max 1 (py_int x) = max 1 \<lfloor>x\<rfloor>"
proof (cases "0 \<le> x")
  case True
  then show ?thesis by (simp add: py_int_def)
next
  case False
  then have "\<lfloor>x\<rfloor> \<le> 0" "\<lceil>x\<rceil> \<le> 0"
    by (simp_all add: floor_le_iff ceiling_le_iff)
  with False show ?thesis by (simp add: py_int_def)
qed

lemma credits_of_numbers:
  assumes "\<bar>mul64 avg hours\<bar> < overflow64"
  shows "(case py_int64 (fdiv (fmul (Num avg) (Num hours)) (Num 10)) of
            Inl e \<Rightarrow> Inl e | Inr k \<Rightarrow> Inr (max 1 k)) =
         Inr (max 1 \<lfloor>div64 (mul64 avg hours) 10\<rfloor>)"
proof -
  have p: "to_float (avg * hours) = Num (mul64 avg hours)"
    using assms by (simp add: to_float_def mul64_def)
  have "to_float (mul64 avg hours / 10) = Num (div64 (mul64 avg hours) 10)"
    using assms by (rule quotient_in_range) simp
  then show ?thesis
    by (simp add: p max_py_int)
qed

lemma hours_of_seconds:
  assumes "\<bar>s\<bar> < overflow64"
  shows "py_max (to_float (s / 3600)) (Num 1) = Num (max (div64 s 3600) 1)"
proof -
  have "to_float (s / 3600) = Num (div64 s 3600)"
    using assms by (rule quotient_in_range) simp
  then show ?thesis
    by (simp add: py_max_def max_def)
qed

lemma dropna_Cons_Some: "dropna (Some x # cells) = x # dropna cells"
  by (simp add: dropna_def)

lemma dropna_Nil: "dropna [] = []"
  by (simp add: dropna_def)

lemma half_hour_mean: "mean_skipna correctly_rounded [Some 40, Some 39, Some 41] = Num 40"
  using to_float_int [of 40]
  by (simp add: correctly_rounded_def dropna_Cons_Some dropna_Nil pd_mean_def)

lemma half_hour_span:
  "span_seconds correctly_rounded [Some 0, Some 900000000000, Some 1800000000000] = Num 1800"
  using to_float_int [of 1800]
  by (simp add: correctly_rounded_def dropna_Cons_Some dropna_Nil)

lemma div64_half: "div64 1800 3600 = 1 / 2"
  using rnd64_exact [of 1 "- 1"] by (simp add: div64_def powr_minus)

lemma mul64_40: "mul64 40 1 = 40"
  using rnd64_exact [of 40 0] by (simp add: mul64_def)

lemma div64_4: "div64 40 10 = 4"
  using rnd64_exact [of 4 0] by (simp add: div64_def)

lemma div64_5280: "div64 5280 3600 = 6605279453476727 / 4503599627370496"
  unfolding div64_def
  by (subst rnd64_eval [of 0]) (simp_all add: powr_minus round_even_def Let_def)

lemma mul64_75: "mul64 75 (6605279453476727 / 4503599627370496) = 7740561859543039 / 70368744177664"
  unfolding mul64_def
  by (subst rnd64_eval [of 6]) (simp_all add: powr_minus round_even_def Let_def powr_numeral)

lemma div64_110: "div64 (7740561859543039 / 70368744177664) 10 = 6192449487634431 / 562949953421312"
  unfolding div64_def
  by (subst rnd64_eval [of 3]) (simp_all add: powr_minus round_even_def Let_def powr_numeral)

lemma slow_mean: "mean_skipna correctly_rounded [Some 74, Some 75, Some 76] = Num 75"
  by (simp add: correctly_rounded_def dropna_Cons_Some dropna_Nil pd_mean_def)

lemma slow_span:
  "span_seconds correctly_rounded [Some 0, Some 2640000000000, Some 5280000000000] = Num 5280"
  by (simp add: correctly_rounded_def dropna_Cons_Some dropna_Nil)

text \<open>
  C2, as amended. For every tabular artifact whose \<open>value\<close> column has a mean that is a
  number, and whose \<open>timestamp\<close> column, when present and parsed, has a span that is a
  number, the credit estimate is \<open>max 1 \<lfloor>mean * hours / 10\<rfloor>\<close>, product and quotient
  rounded to binary64, where \<open>hours\<close> is 1 when the column is absent or fails to parse and
  otherwise the larger of 1 and the rounded quotient of the span in seconds by 3600,
  provided the product stays below the overflow threshold.
\<close>

theorem calculate_credits_iot_formula:
  assumes "value_col df = Some cells" and "mean_skipna lib cells = Num avg"
    and "\<forall>ts. timestamp_col df = Some (Datetimes ts) \<longrightarrow>
           span_seconds lib ts = Num seconds \<and> \<bar>seconds\<bar> < overflow64"
    and "hours = (case timestamp_col df of
                    None \<Rightarrow> 1
                  | Some Parse_error \<Rightarrow> 1
                  | Some (Datetimes ts) \<Rightarrow> max (div64 seconds 3600) 1)"
    and "\<bar>mul64 avg hours\<bar> < overflow64"
  shows "calculate_credits_iot_f64 lib df = Inr (max 1 \<lfloor>div64 (mul64 avg hours) 10\<rfloor>)"
proof -
  have "duration_hours64 lib df = Num hours"
  proof (cases "timestamp_col df")
    case None
    with assms(4) show ?thesis by (simp add: duration_hours64_def)
  next
    case (Some p)
    show ?thesis
    proof (cases p)
      case Parse_error
      with Some assms(4) show ?thesis by (simp add: duration_hours64_def)
    next
      case (Datetimes ts)
      with Some assms(3) have "span_seconds lib ts = Num seconds" "\<bar>seconds\<bar> < overflow64"
        by simp_all
      with Some Datetimes assms(4) show ?thesis
        by (simp add: duration_hours64_def hours_of_seconds)
    qed
  qed
  with assms(1,2) credits_of_numbers [OF assms(5)] show ?thesis
    by (simp add: calculate_credits_iot_f64_def)
qed

theorem calculate_credits_iot_formula_witness:
  "calculate_credits_iot_f64 correctly_rounded half_hour_csv = Inr 4
   \<and> calculate_credits_iot_f64 correctly_rounded slow_csv = Inr 10"
proof -
  let ?h = "6605279453476727 / 4503599627370496 :: real"
  have v: "value_col half_hour_csv = Some [Some 40, Some 39, Some 41]"
    by (simp add: half_hour_csv_def)
  have t: "\<forall>ts. timestamp_col half_hour_csv = Some (Datetimes ts) \<longrightarrow>
      span_seconds correctly_rounded ts = Num 1800 \<and> \<bar>1800 :: real\<bar> < overflow64"
    using small_below_overflow64 [of 1800] by (simp add: half_hour_csv_def half_hour_span)
  have h: "(1::real) = (case timestamp_col half_hour_csv of
                    None \<Rightarrow> 1
                  | Some Parse_error \<Rightarrow> 1
                  | Some (Datetimes ts) \<Rightarrow> max (div64 1800 3600) 1)"
    by (simp add: half_hour_csv_def div64_half)
  have r: "\<bar>mul64 40 1\<bar> < overflow64"
    by (rule small_below_overflow64) (simp add: mul64_40)
  from calculate_credits_iot_formula [OF v half_hour_mean t h r]
  have a: "calculate_credits_iot_f64 correctly_rounded half_hour_csv = Inr 4"
    by (simp add: mul64_40 div64_4)
  have v': "value_col slow_csv = Some [Some 74, Some 75, Some 76]"
    by (simp add: slow_csv_def)
  have t': "\<forall>ts. timestamp_col slow_csv = Some (Datetimes ts) \<longrightarrow>
      span_seconds correctly_rounded ts = Num 5280 \<and> \<bar>5280 :: real\<bar> < overflow64"
    using small_below_overflow64 [of 5280] by (simp add: slow_csv_def slow_span)
  have h': "?h = (case timestamp_col slow_csv of
                    None \<Rightarrow> 1
                  | Some Parse_error \<Rightarrow> 1
                  | Some (Datetimes ts) \<Rightarrow> max (div64 5280 3600) 1)"
    by (simp add: slow_csv_def div64_5280)
  have r': "\<bar>mul64 75 ?h\<bar> < overflow64"
    by (rule small_below_overflow64) (simp add: mul64_75)
  from calculate_credits_iot_formula [OF v' slow_mean t' h' r']
  have b: "calculate_credits_iot_f64 correctly_rounded slow_csv = Inr 10"
    by (simp add: mul64_75 div64_110)
  from a b show ?thesis by (rule conjI)
qed

text \<open>
  C2, as the specification words it, fails: with readings 40, 39 and 41 taken over half
  an hour the source uses a duration of one hour and estimates 4 credits, where the
  specification's formula uses half an hour and gives 2.
\<close>

theorem calculate_credits_iot_counterexample:
  "calculate_credits_iot_f64 correctly_rounded half_hour_csv = Inr 4
   \<and> spec_credits_iot half_hour_csv = 2
   \<and> calculate_credits_iot_f64 correctly_rounded half_hour_csv
       \<noteq> Inr (spec_credits_iot half_hour_csv)"
proof -
  have d: "dropna [Some 40, Some 39, Some (41::real)] = [40, 39, 41]"
    by (simp add: dropna_def)
  have dt: "dropna [Some 0, Some 900000000000, Some (1800000000000::int)] =
      [0, 900000000000, 1800000000000]"
    by (simp add: dropna_def)
  have sp: "span_hours [0, 900000000000, 1800000000000] = 1 / 2"
    by (simp add: span_hours_def)
  have "\<bar>1800 :: real\<bar> < overflow64"
    by (rule small_below_overflow64) simp
  then have "duration_hours64 correctly_rounded half_hour_csv = Num 1"
    using hours_of_seconds [of 1800]
    by (simp add: duration_hours64_def half_hour_csv_def half_hour_span div64_half)
  moreover have "\<bar>mul64 40 1\<bar> < overflow64"
    by (rule small_below_overflow64) (simp add: mul64_40)
  then have "(case py_int64 (fdiv (fmul (Num 40) (Num 1)) (Num 10)) of
            Inl e \<Rightarrow> Inl e | Inr k \<Rightarrow> Inr (max 1 k)) = Inr 4"
    using credits_of_numbers [of 40 1] by (simp only: mul64_40 div64_4) simp
  ultimately have a: "calculate_credits_iot_f64 correctly_rounded half_hour_csv = Inr 4"
    by (simp add: calculate_credits_iot_f64_def half_hour_csv_def half_hour_mean)
  have b: "spec_credits_iot half_hour_csv = 2"
    by (simp add: spec_credits_iot_def spec_duration_hours_def half_hour_csv_def d dt sp
        pd_mean_def)
  from a b show ?thesis by simp
qed

subsection \<open>The registry under the two buttons\<close>

lemma fold_latest_in: "fold (\<lambda>x best. if row_id best < row_id x then x else best) rest r \<in> set (r # rest)"
  by (induction rest arbitrary: r) (auto split: if_splits)

lemma latest_in: "latest rs = Some r \<Longrightarrow> r \<in> set rs"
  using fold_latest_in by (auto simp: latest_def split: list.splits)

lemma latest_None: "latest rs = None \<longleftrightarrow> rs = []"
  by (simp add: latest_def split: list.splits)

lemma selected_unissued:
  "latest (filter unissued_verified rs) = Some s \<Longrightarrow> s \<in> set rs \<and> unissued_verified s"
  by (drule latest_in) simp

lemma unissued_not_hash_set: "unissued_verified s \<Longrightarrow> \<not> hash_set s"
  by (auto simp: unissued_verified_def hash_set_def)

lemma update_keeps_other:
  assumes "r \<in> set rs" and "row_id r \<noteq> i"
  shows "r \<in> set (update_tx_hash rs tx i)"
  using assms by (force simp: update_tx_hash_def)

lemma distinct_ids_eq:
  "distinct (map row_id rs) \<Longrightarrow> r \<in> set rs \<Longrightarrow> s \<in> set rs \<Longrightarrow> row_id r = row_id s \<Longrightarrow> r = s"
  by (meson distinct_map inj_onD)

lemma issue_keeps_set_hash:
  assumes "distinct (map row_id (rows conn))" and "r \<in> set (rows conn)" and "hash_set r"
  shows "r \<in> set (rows (snd (issue conn e)))"
proof (cases "latest (filter unissued_verified (rows conn))")
  case None
  with assms(2) show ?thesis by (simp add: issue_def)
next
  case (Some s)
  from selected_unissued [OF Some] have s: "s \<in> set (rows conn)" "unissued_verified s"
    by simp_all
  with assms(3) have "r \<noteq> s" using unissued_not_hash_set by blast
  with assms(1,2) s(1) have "row_id r \<noteq> row_id s"
    using distinct_ids_eq by blast
  with assms(2) Some show ?thesis
    by (simp add: issue_def Let_def update_keeps_other)
qed

lemma map_row_id_update: "map row_id (update_tx_hash rs tx i) = map row_id rs"
  by (induction rs) (simp_all add: update_tx_hash_def)

lemma wf_issue: "wf_registry conn \<Longrightarrow> wf_registry (snd (issue conn e))"
proof -
  assume wf: "wf_registry conn"
  have "list_all (\<lambda>r. row_id r \<le> n) (update_tx_hash rs tx i)" if "list_all (\<lambda>r. row_id r \<le> n) rs" for rs tx i n
    using that by (induction rs) (simp_all add: update_tx_hash_def)
  with wf show ?thesis
    by (simp add: wf_registry_def issue_def Let_def map_row_id_update split: option.splits)
qed

lemma rows_save_record:
  "rows (fst (save_record conn e p d c s n t)) = rows conn @
     [\<lparr>row_id = Suc (seq conn), record_uuid = uuid4 e, created_at = utcnow e,
       project_name = p, data_type = d, credits = c, mrv_status = s, mrv_msg = n, tx_hash = t\<rparr>]"
  "seq (fst (save_record conn e p d c s n t)) = Suc (seq conn)"
  by (simp_all add: save_record_def Let_def)

lemma wf_save_record: "wf_registry conn \<Longrightarrow> wf_registry (fst (save_record conn e p d c s n t))"
  by (auto simp: wf_registry_def rows_save_record list_all_iff)

text \<open>The handler, seen through the artifact it works on.\<close>

lemma verify_and_calculate_calls:
  "calls (verify_and_calculate conn e p u) =
     (case uploaded_artifact u of
        None \<Rightarrow> []
      | Some a \<Rightarrow>
          (case validate a of
             Inl err \<Rightarrow> [validator_call a]
           | Inr (ok, n) \<Rightarrow>
               if ok then
                 (case estimate a of
                    Inl err \<Rightarrow> [validator_call a, estimator_call a]
                  | Inr c \<Rightarrow> [validator_call a, estimator_call a, Call_save_record])
               else [validator_call a, Call_save_record]))"
proof (cases u)
  case None
  then show ?thesis by (simp add: verify_and_calculate_def uploaded_artifact_def)
next
  case (Some f)
  show ?thesis
  proof (cases "endswith (lower (file_name f)) ''.csv''")
    case True
    with Some show ?thesis
      by (simp add: verify_and_calculate_def uploaded_artifact_def
          split: option.split sum.split prod.split)
  next
    case False
    with Some show ?thesis
      by (simp add: verify_and_calculate_def uploaded_artifact_def Let_def
          split: option.split sum.split prod.split)
  qed
qed

lemma verify_and_calculate_db:
  "db (verify_and_calculate conn e p u) =
     (case uploaded_artifact u of
        None \<Rightarrow> conn
      | Some a \<Rightarrow>
          (case validate a of
             Inl err \<Rightarrow> conn
           | Inr (ok, n) \<Rightarrow>
               if ok then
                 (case estimate a of
                    Inl err \<Rightarrow> conn
                  | Inr c \<Rightarrow> fst (save_record conn e p (artifact_kind a) c ''verified'' n None))
               else fst (save_record conn e p (artifact_kind a) 0 ''rejected'' n None)))"
proof (cases u)
  case None
  then show ?thesis by (simp add: verify_and_calculate_def uploaded_artifact_def)
next
  case (Some f)
  show ?thesis
  proof (cases "endswith (lower (file_name f)) ''.csv''")
    case True
    with Some show ?thesis
      by (simp add: verify_and_calculate_def uploaded_artifact_def
          split: option.split sum.split prod.split)
  next
    case False
    with Some show ?thesis
      by (simp add: verify_and_calculate_def uploaded_artifact_def Let_def
          split: option.split sum.split prod.split)
  qed
qed

lemma verify_cases:
  "db (verify_and_calculate conn e p u) = conn \<or>
   (\<exists>d c s n. db (verify_and_calculate conn e p u) = fst (save_record conn e p d c s n None))"
  unfolding verify_and_calculate_db
  by (simp split: option.split sum.split prod.split) blast

lemma wf_verify: "wf_registry conn \<Longrightarrow> wf_registry (db (verify_and_calculate conn e p u))"
  using verify_cases [of conn e p u] wf_save_record by auto

lemma verify_keeps_rows: "r \<in> set (rows conn) \<Longrightarrow> r \<in> set (rows (db (verify_and_calculate conn e p u)))"
  using verify_cases [of conn e p u] by (auto simp: rows_save_record)

lemma wf_step: "wf_registry conn \<Longrightarrow> wf_registry (step a conn)"
  by (cases a) (simp_all add: wf_verify wf_issue)

lemma step_keeps_set_hash:
  "wf_registry conn \<Longrightarrow> r \<in> set (rows conn) \<Longrightarrow> hash_set r \<Longrightarrow> r \<in> set (rows (step a conn))"
  by (cases a) (simp_all add: verify_keeps_rows issue_keeps_set_hash wf_registry_def)

lemma run_keeps_set_hash:
  "wf_registry conn \<Longrightarrow> r \<in> set (rows conn) \<Longrightarrow> hash_set r \<Longrightarrow> r \<in> set (rows (run conn as))"
  unfolding run_def
  by (induction as arbitrary: conn) (simp_all add: wf_step step_keeps_set_hash)

lemma wf_run: "wf_registry conn \<Longrightarrow> wf_registry (run conn as)"
  unfolding run_def by (induction as arbitrary: conn) (simp_all add: wf_step)

lemma wf_init: "wf_registry init_db"
  by (simp add: wf_registry_def init_db_def)

text \<open>
  C9. When the issue action runs and no row has status \<open>verified\<close> with an unset ledger
  hash, it shows the informational message and the registry afterwards is the registry
  before.
\<close>

theorem issue_without_candidate_changes_nothing:
  assumes "\<forall>r \<in> set (rows conn). \<not> unissued_verified r"
  shows "issue conn e = (Info_no_unissued, conn)"
proof -
  from assms have "filter unissued_verified (rows conn) = []"
    by (simp add: filter_empty_conv)
  then show ?thesis
    by (simp add: issue_def latest_def)
qed

theorem issue_without_candidate_changes_nothing_witness:
  "issue example_registry example_env = (Info_no_unissued, example_registry)"
proof -
  have h: "\<forall>r \<in> set (rows example_registry). \<not> unissued_verified r"
    by (simp add: example_registry_def issued_row_def rejected_row_def unissued_verified_def)
  from issue_without_candidate_changes_nothing [OF h] show ?thesis .
qed

text \<open>
  C6. In a registry whose row ids are distinct, a row whose ledger hash is set (not NULL
  and not empty) is still there, unchanged, after any sequence of issue and upload
  actions, so the row of its id keeps its hash; and the row an issue action selects is a
  row of the registry whose hash is unset, hence another row.
\<close>

theorem issued_hash_never_overwritten:
  assumes "wf_registry conn" and "r \<in> set (rows conn)" and "hash_set r"
  shows "r \<in> set (rows (run conn actions))
       \<and> (\<forall>r' \<in> set (rows (run conn actions)). row_id r' = row_id r \<longrightarrow> tx_hash r' = tx_hash r)
       \<and> (\<forall>s. latest (filter unissued_verified (rows conn)) = Some s \<longrightarrow>
             s \<in> set (rows conn) \<and> \<not> hash_set s \<and> s \<noteq> r)"
proof -
  have a: "r \<in> set (rows (run conn actions))"
    using assms by (rule run_keeps_set_hash)
  have "wf_registry (run conn actions)"
    using assms(1) by (rule wf_run)
  then have "distinct (map row_id (rows (run conn actions)))"
    by (simp add: wf_registry_def)
  with a have b: "\<forall>r' \<in> set (rows (run conn actions)). row_id r' = row_id r \<longrightarrow> tx_hash r' = tx_hash r"
    using distinct_ids_eq by blast
  have c: "s \<in> set (rows conn) \<and> \<not> hash_set s \<and> s \<noteq> r"
    if "latest (filter unissued_verified (rows conn)) = Some s" for s
    using selected_unissued [OF that] unissued_not_hash_set assms(3) by blast
  from a b c show ?thesis by blast
qed

theorem issued_hash_never_overwritten_witness:
  "wf_registry example_registry \<and> issued_row \<in> set (rows example_registry)
   \<and> hash_set issued_row
   \<and> issued_row \<in> set (rows (run example_registry
         [Issue example_env, Verify example_env ''Demo'' None, Issue example_env]))"
proof -
  have w: "wf_registry example_registry"
    by (simp add: wf_registry_def example_registry_def issued_row_def rejected_row_def)
  have m: "issued_row \<in> set (rows example_registry)"
    by (simp add: example_registry_def)
  have h: "hash_set issued_row"
    by (simp add: hash_set_def issued_row_def)
  from w m h issued_hash_never_overwritten [OF w m h] show ?thesis
    by blast
qed

subsection \<open>The upload handlers and the rows they store\<close>

lemma luminance_variance_gray: "luminance_variance gray_200x200 = Some 0"
  by (simp add: luminance_variance_def np_var_def np_mean_def gray_200x200_def
      sum_list_replicate)

lemma luminance_variance_stripes: "luminance_variance (stripes_100x100 40) = Some 400"
  by (simp add: luminance_variance_def np_var_def np_mean_def stripes_100x100_def
      sum_list_replicate)

lemma validate_gray: "anomaly_detection_image gray_200x200 = (False, Low_pixel_variance (Some 0))"
  by (simp add: anomaly_detection_image_def luminance_variance_gray)

lemma validate_stripes:
  "anomaly_detection_image (stripes_100x100 40) = (True, Image_passes (Some 400))"
  by (simp add: anomaly_detection_image_def luminance_variance_stripes)
    (simp add: stripes_100x100_def)

lemma artifact_gray: "uploaded_artifact (Some gray_upload) = Some (Picture gray_200x200)"
  by (simp add: uploaded_artifact_def gray_upload_def endswith_def lower_def lower_char_def)

lemma artifact_stripes:
  "uploaded_artifact (Some stripes_upload) = Some (Picture (stripes_100x100 40))"
  by (simp add: uploaded_artifact_def stripes_upload_def endswith_def lower_def lower_char_def)

lemma credits_stripes: "calculate_credits_image (stripes_100x100 40) = 1"
  by (simp add: calculate_credits_image_def stripes_100x100_def py_int_def)

lemma db_gray:
  "db (verify_and_calculate conn e p (Some gray_upload)) =
     fst (save_record conn e p ''image'' 0 ''rejected'' (Low_pixel_variance (Some 0)) None)"
  by (simp add: verify_and_calculate_db artifact_gray validate_gray)

lemma db_stripes:
  "db (verify_and_calculate conn e p (Some stripes_upload)) =
     fst (save_record conn e p ''image'' 1 ''verified'' (Image_passes (Some 400)) None)"
  by (simp add: verify_and_calculate_db artifact_stripes validate_stripes credits_stripes)

lemma calls_stripes:
  "calls (verify_and_calculate conn e p (Some stripes_upload)) =
     [Call_anomaly_detection_image, Call_calculate_credits_image, Call_save_record]"
  by (simp add: verify_and_calculate_calls artifact_stripes validate_stripes)

lemma validator_call_not_estimator:
  "validator_call a \<noteq> Call_calculate_credits_iot"
  "validator_call a \<noteq> Call_calculate_credits_image"
  by (cases a; simp)+

text \<open>
  C4, as amended (\<^verbatim>\<open>app.py\<close>). For every press of "Verify and Calculate", a row that the
  handler adds with status \<open>verified\<close> comes from an uploaded artifact on which the
  validator was called first and returned pass, and its note is the validator's message;
  an estimator is called only as the second call, right after a validator call that
  returned pass.
\<close>

theorem verified_requires_passed_validation:
  "(\<forall>r. r \<in> set (rows (db (verify_and_calculate conn e p u))) \<and> r \<notin> set (rows conn)
          \<and> mrv_status r = ''verified'' \<longrightarrow>
        (\<exists>a n rest. uploaded_artifact u = Some a \<and> validate a = Inr (True, n) \<and> mrv_msg r = n
           \<and> calls (verify_and_calculate conn e p u) = validator_call a # rest))
   \<and> (\<forall>c \<in> set (calls (verify_and_calculate conn e p u)).
        (c = Call_calculate_credits_iot \<or> c = Call_calculate_credits_image) \<longrightarrow>
        (\<exists>a n rest. uploaded_artifact u = Some a \<and> validate a = Inr (True, n)
           \<and> calls (verify_and_calculate conn e p u)
              = validator_call a # estimator_call a # rest))"
proof (cases "uploaded_artifact u")
  case None
  then show ?thesis
    by (simp add: verify_and_calculate_db verify_and_calculate_calls)
next
  case (Some a)
  show ?thesis
  proof (cases "validate a")
    case (Inl err)
    with Some show ?thesis
      by (simp add: verify_and_calculate_db verify_and_calculate_calls
          validator_call_not_estimator)
  next
    case (Inr v)
    obtain ok n where v: "v = (ok, n)" by (cases v)
    show ?thesis
    proof (cases ok)
      case False
      with Some Inr v show ?thesis
        by (auto simp: verify_and_calculate_db verify_and_calculate_calls rows_save_record
            validator_call_not_estimator)
    next
      case True
      show ?thesis
      proof (cases "estimate a")
        case (Inl err)
        with Some Inr v True show ?thesis
          by (auto simp: verify_and_calculate_db verify_and_calculate_calls)
      next
        case c: (Inr c)
        with Some Inr v True show ?thesis
          by (auto simp: verify_and_calculate_db verify_and_calculate_calls rows_save_record)
      qed
    qed
  qed
qed

theorem verified_requires_passed_validation_witness:
  "\<exists>a n rest. uploaded_artifact (Some stripes_upload) = Some a \<and> validate a = Inr (True, n)
      \<and> Image_passes (Some 400) = n
      \<and> calls (verify_and_calculate init_db example_env ''Demo'' (Some stripes_upload))
         = validator_call a # rest"
proof -
  let ?out = "verify_and_calculate init_db example_env ''Demo'' (Some stripes_upload)"
  let ?r = "\<lparr>row_id = Suc 0, record_uuid = uuid4 example_env, created_at = utcnow example_env,
      project_name = ''Demo'', data_type = ''image'', credits = 1, mrv_status = ''verified'',
      mrv_msg = Image_passes (Some 400), tx_hash = None\<rparr>"
  have a: "?r \<in> set (rows (db ?out))"
    by (simp add: db_stripes rows_save_record init_db_def)
  have b: "?r \<notin> set (rows init_db)"
    by (simp add: init_db_def)
  have c: "mrv_status ?r = ''verified''"
    by simp
  from verified_requires_passed_validation
    [of init_db example_env "''Demo''" "Some stripes_upload"] a b c
  show ?thesis
    by (metis (no_types, lifting) registry_row.select_convs(8))
qed

lemma update_tx_hash_row:
  "r' \<in> set (update_tx_hash rs tx i) \<Longrightarrow>
     \<exists>r \<in> set rs. mrv_status r' = mrv_status r \<and> credits r' = credits r \<and> mrv_msg r' = mrv_msg r"
  by (auto simp: update_tx_hash_def split: if_splits)

lemma issue_row:
  "r' \<in> set (rows (snd (issue conn e))) \<Longrightarrow>
     \<exists>r \<in> set (rows conn). mrv_status r' = mrv_status r \<and> credits r' = credits r \<and> mrv_msg r' = mrv_msg r"
proof (cases "latest (filter unissued_verified (rows conn))")
  case None
  assume "r' \<in> set (rows (snd (issue conn e)))"
  with None show ?thesis by (auto simp: issue_def)
next
  case (Some s)
  assume "r' \<in> set (rows (snd (issue conn e)))"
  with Some show ?thesis
    by (simp add: issue_def Let_def update_tx_hash_row)
qed

lemma verify_row:
  assumes "r \<in> set (rows (db (verify_and_calculate conn e p u)))"
  shows "r \<in> set (rows conn) \<or> mrv_status r = ''verified''
       \<or> (mrv_status r = ''rejected'' \<and> credits r = 0 \<and> tx_hash r = None
           \<and> (\<exists>a. uploaded_artifact u = Some a \<and> validate a = Inr (False, mrv_msg r)))"
proof (cases "uploaded_artifact u")
  case None
  with assms show ?thesis by (simp add: verify_and_calculate_db)
next
  case (Some a)
  show ?thesis
  proof (cases "validate a")
    case (Inl err)
    with Some assms show ?thesis by (simp add: verify_and_calculate_db)
  next
    case (Inr v)
    obtain ok n where v: "v = (ok, n)" by (cases v)
    show ?thesis
    proof (cases ok)
      case False
      with Some Inr v assms show ?thesis
        by (auto simp: verify_and_calculate_db rows_save_record)
    next
      case True
      with Some Inr v assms show ?thesis
        by (cases "estimate a") (auto simp: verify_and_calculate_db rows_save_record)
    qed
  qed
qed

lemma step_rejected_rows:
  assumes "\<forall>r \<in> set (rows conn). mrv_status r = ''rejected'' \<longrightarrow>
             credits r = 0 \<and> (\<exists>a. validate a = Inr (False, mrv_msg r))"
  shows "\<forall>r \<in> set (rows (step act conn)). mrv_status r = ''rejected'' \<longrightarrow>
             credits r = 0 \<and> (\<exists>a. validate a = Inr (False, mrv_msg r))"
proof (cases act)
  case (Verify e p u)
  show ?thesis
  proof (intro ballI impI)
    fix r
    assume r: "r \<in> set (rows (step act conn))" and rej: "mrv_status r = ''rejected''"
    from r Verify have "r \<in> set (rows (db (verify_and_calculate conn e p u)))" by simp
    from verify_row [OF this] rej assms
    show "credits r = 0 \<and> (\<exists>a. validate a = Inr (False, mrv_msg r))"
      by auto
  qed
next
  case (Issue e)
  show ?thesis
  proof (intro ballI impI)
    fix r
    assume r: "r \<in> set (rows (step act conn))" and rej: "mrv_status r = ''rejected''"
    from r Issue have "r \<in> set (rows (snd (issue conn e)))" by simp
    from issue_row [OF this] rej assms
    show "credits r = 0 \<and> (\<exists>a. validate a = Inr (False, mrv_msg r))"
      by auto
  qed
qed

lemma run_rejected_rows:
  assumes "\<forall>r \<in> set (rows conn). mrv_status r = ''rejected'' \<longrightarrow>
             credits r = 0 \<and> (\<exists>a. validate a = Inr (False, mrv_msg r))"
  shows "\<forall>r \<in> set (rows (run conn actions)). mrv_status r = ''rejected'' \<longrightarrow>
             credits r = 0 \<and> (\<exists>a. validate a = Inr (False, mrv_msg r))"
  using assms unfolding run_def
proof (induction actions arbitrary: conn)
  case Nil
  then show ?case by simp
next
  case (Cons act actions)
  from step_rejected_rows [OF Cons.prems] have
    "\<forall>r \<in> set (rows (step act conn)). mrv_status r = ''rejected'' \<longrightarrow>
       credits r = 0 \<and> (\<exists>a. validate a = Inr (False, mrv_msg r))" .
  from Cons.IH [OF this] show ?case by simp
qed

text \<open>
  C5. When the validator fails on the uploaded artifact, the handler stores one row with
  status \<open>rejected\<close>, quantity 0, the validator's reason as its note and no hash; and in
  every registry reached from the empty one by button presses, a row with status
  \<open>rejected\<close> has quantity 0 and a note that is the failure reason of the validator on
  some artifact.
\<close>

theorem rejected_rows_carry_zero_and_reason:
  "(\<forall>a n. uploaded_artifact u = Some a \<and> validate a = Inr (False, n) \<longrightarrow>
       rows (db (verify_and_calculate conn e p u)) = rows conn @
         [\<lparr>row_id = Suc (seq conn), record_uuid = uuid4 e, created_at = utcnow e,
           project_name = p, data_type = artifact_kind a, credits = 0,
           mrv_status = ''rejected'', mrv_msg = n, tx_hash = None\<rparr>])
   \<and> (\<forall>r \<in> set (rows (run init_db actions)). mrv_status r = ''rejected'' \<longrightarrow>
         credits r = 0 \<and> (\<exists>a. validate a = Inr (False, mrv_msg r)))"
proof -
  have "\<forall>r \<in> set (rows init_db). mrv_status r = ''rejected'' \<longrightarrow>
          credits r = 0 \<and> (\<exists>a. validate a = Inr (False, mrv_msg r))"
    by (simp add: init_db_def)
  from run_rejected_rows [OF this] show ?thesis
    by (simp add: verify_and_calculate_db rows_save_record)
qed

theorem rejected_rows_carry_zero_and_reason_witness:
  "rows (run init_db [Verify example_env ''Demo'' (Some gray_upload)]) =
     [\<lparr>row_id = Suc 0, record_uuid = uuid4 example_env, created_at = utcnow example_env,
       project_name = ''Demo'', data_type = ''image'', credits = 0,
       mrv_status = ''rejected'', mrv_msg = Low_pixel_variance (Some 0), tx_hash = None\<rparr>]
   \<and> (\<exists>a. validate a = Inr (False, Low_pixel_variance (Some 0)))"
proof -
  let ?r = "\<lparr>row_id = Suc 0, record_uuid = uuid4 example_env, created_at = utcnow example_env,
       project_name = ''Demo'', data_type = ''image'', credits = 0,
       mrv_status = ''rejected'', mrv_msg = Low_pixel_variance (Some 0), tx_hash = None\<rparr>"
  have v: "uploaded_artifact (Some gray_upload) = Some (Picture gray_200x200)
      \<and> validate (Picture gray_200x200) = Inr (False, Low_pixel_variance (Some 0))"
    by (simp add: artifact_gray validate_gray)
  from rejected_rows_carry_zero_and_reason
    [of "Some gray_upload" init_db example_env "''Demo''"
      "[Verify example_env ''Demo'' (Some gray_upload)]"] v
  have rows: "rows (db (verify_and_calculate init_db example_env ''Demo'' (Some gray_upload)))
      = [?r]"
    and inv: "\<forall>r \<in> set (rows (run init_db [Verify example_env ''Demo'' (Some gray_upload)])).
       mrv_status r = ''rejected'' \<longrightarrow>
         credits r = 0 \<and> (\<exists>a. validate a = Inr (False, mrv_msg r))"
    by (simp_all add: init_db_def)
  from rows have run: "rows (run init_db [Verify example_env ''Demo'' (Some gray_upload)]) = [?r]"
    by (simp add: run_def)
  with inv have "\<exists>a. validate a = Inr (False, mrv_msg ?r)"
    by simp
  with run show ?thesis by simp
qed

text \<open>
  C4, as stated, fails on the upload page of \<^verbatim>\<open>app1.py\<close>: a uniform gray image of
  200 by 200 pixels, which the image validator rejects, is stored with status
  \<open>verified\<close> after the calls of the estimator and of \<open>add_credit\<close> alone.
\<close>

theorem upload_and_verify_counterexample:
  "upload_and_verify one_project_store example_env ''0.0'' 1 (Some gray_200x200) =
     Inr \<lparr>calls1 = [Call_calculate_carbon_credits, Call_add_credit],
          db1 = one_project_store
            \<lparr>credits_tbl :=
               [\<lparr>c_id = 1, c_uuid = uuid4 example_env, c_project_id = 1,
                 c_data_type = ''image'', c_credits = Some 0, c_status = ''verified'',
                 c_notes = Variance_note (Some 0), c_timestamp = utcnow example_env,
                 c_tx_hash = Some (simulate_tx_hash1
                   (uuid4 example_env @ ''0.0'' @ utcnow example_env))\<rparr>],
             credits_seq := 1\<rparr>\<rparr>
   \<and> anomaly_detection_image gray_200x200 = (False, Low_pixel_variance (Some 0))"
proof -
  have "calculate_carbon_credits gray_200x200 = (Some 0, Some 0)"
    by (simp add: calculate_carbon_credits_def luminance_variance_gray round2_def Let_def)
  then show ?thesis
    by (simp add: upload_and_verify_def add_credit_def one_project_store_def Let_def
        validate_gray)
qed

lemma length_hex32: "length (hex32 w) = 8"
  by (simp add: hex32_def)

lemma length_hexdigest: "length (hexdigest st) = 64"
  by (cases st rule: hexdigest.cases) (simp add: length_hex32)

lemma length_sha256_hexdigest: "length (sha256_hexdigest s) = 64"
  by (simp add: sha256_hexdigest_def length_hexdigest)

lemma simulate_tx_hash_nonempty: "simulate_tx_hash u t \<noteq> []"
  using length_sha256_hexdigest [of "u @ ''|'' @ t"]
  by (auto simp: simulate_tx_hash_def Let_def)

text \<open>
  C7, as amended. In \<^verbatim>\<open>app.py\<close> the upload handler stores at most one row and that row has
  no ledger hash; the issue action gives a hash to a row whose hash is unset, after which
  the hash is set; and a row whose hash is set survives every later sequence of actions
  unchanged. In \<^verbatim>\<open>app1.py\<close> every project, credit record and complaint gets its ledger
  hash in the insertion that creates it: the digest of its UUID, its content text and its
  timestamp.
\<close>

theorem ledger_hash_assignment:
  "(rows (db (verify_and_calculate conn e p u)) = rows conn
      \<or> (\<exists>r. rows (db (verify_and_calculate conn e p u)) = rows conn @ [r] \<and> tx_hash r = None))
   \<and> (\<forall>s. latest (filter unissued_verified (rows conn)) = Some s \<longrightarrow>
         \<not> hash_set s
         \<and> rows (snd (issue conn e)) =
             update_tx_hash (rows conn) (simulate_tx_hash (record_uuid s) (time_time e)) (row_id s)
         \<and> hash_set (s\<lparr>tx_hash := Some (simulate_tx_hash (record_uuid s) (time_time e))\<rparr>))
   \<and> (wf_registry conn \<and> r \<in> set (rows conn) \<and> hash_set r \<longrightarrow>
         r \<in> set (rows (run conn actions)))
   \<and> (\<forall>st' uid tx. add_project st e name location description = Inr (st', uid, tx) \<longrightarrow>
         (\<exists>row. projects st' = projects st @ [row] \<and> p_tx_hash row = Some tx
            \<and> tx = simulate_tx_hash1 (p_uuid row @ p_created_at row)))
   \<and> (\<forall>st' uid tx. add_credit st e str_credits pid kind credit status notes = Inr (st', uid, tx) \<longrightarrow>
         (\<exists>row. credits_tbl st' = credits_tbl st @ [row] \<and> c_tx_hash row = Some tx
            \<and> tx = simulate_tx_hash1 (c_uuid row @ str_credits @ c_timestamp row)))
   \<and> (\<forall>st' uid tx. add_complaint st e pid complaint = Inr (st', uid, tx) \<longrightarrow>
         (\<exists>row. complaints st' = complaints st @ [row] \<and> m_tx_hash row = Some tx
            \<and> tx = simulate_tx_hash1 (m_uuid row @ m_complaint row @ m_created_at row)))"
proof -
  have a: "rows (db (verify_and_calculate conn e p u)) = rows conn
      \<or> (\<exists>r. rows (db (verify_and_calculate conn e p u)) = rows conn @ [r] \<and> tx_hash r = None)"
    using verify_cases [of conn e p u] by (auto simp: rows_save_record)
  have b: "\<not> hash_set s
         \<and> rows (snd (issue conn e)) =
             update_tx_hash (rows conn) (simulate_tx_hash (record_uuid s) (time_time e)) (row_id s)
         \<and> hash_set (s\<lparr>tx_hash := Some (simulate_tx_hash (record_uuid s) (time_time e))\<rparr>)"
    if "latest (filter unissued_verified (rows conn)) = Some s" for s
    using selected_unissued [OF that] unissued_not_hash_set that
    by (simp add: issue_def Let_def hash_set_def simulate_tx_hash_nonempty)
  have c: "wf_registry conn \<and> r \<in> set (rows conn) \<and> hash_set r \<longrightarrow>
         r \<in> set (rows (run conn actions))"
    using run_keeps_set_hash by blast
  have d: "\<forall>st' uid tx. add_project st e name location description = Inr (st', uid, tx) \<longrightarrow>
         (\<exists>row. projects st' = projects st @ [row] \<and> p_tx_hash row = Some tx
            \<and> tx = simulate_tx_hash1 (p_uuid row @ p_created_at row))"
    by (auto simp: add_project_def Let_def split: if_splits)
  have e: "\<forall>st' uid tx. add_credit st e str_credits pid kind credit status notes = Inr (st', uid, tx) \<longrightarrow>
         (\<exists>row. credits_tbl st' = credits_tbl st @ [row] \<and> c_tx_hash row = Some tx
            \<and> tx = simulate_tx_hash1 (c_uuid row @ str_credits @ c_timestamp row))"
    by (auto simp: add_credit_def Let_def split: if_splits)
  have f: "\<forall>st' uid tx. add_complaint st e pid complaint = Inr (st', uid, tx) \<longrightarrow>
         (\<exists>row. complaints st' = complaints st @ [row] \<and> m_tx_hash row = Some tx
            \<and> tx = simulate_tx_hash1 (m_uuid row @ m_complaint row @ m_created_at row))"
    by (auto simp: add_complaint_def Let_def split: if_splits)
  from a b c d e f show ?thesis by blast
qed

theorem ledger_hash_assignment_witness:
  "hash_set (unissued_row
      \<lparr>tx_hash := Some (simulate_tx_hash (record_uuid unissued_row) (time_time example_env))\<rparr>)
   \<and> issued_row \<in> set (rows (run pending_registry [Issue example_env]))
   \<and> (\<exists>row. projects (one_project_store
          \<lparr>projects := projects one_project_store @
             [\<lparr>p_id = 2, p_uuid = uuid4 example_env, p_name = ''Second'', p_location = ''0,0'',
               p_description = ''desc'', p_created_at = utcnow example_env,
               p_tx_hash = Some (simulate_tx_hash1 (uuid4 example_env @ utcnow example_env))\<rparr>],
            projects_seq := 2\<rparr>) = projects one_project_store @ [row]
        \<and> p_tx_hash row = Some (simulate_tx_hash1 (uuid4 example_env @ utcnow example_env)))"
proof -
  have sel: "latest (filter unissued_verified (rows pending_registry)) = Some unissued_row"
    by (simp add: pending_registry_def issued_row_def rejected_row_def unissued_row_def
        unissued_verified_def latest_def)
  have w: "wf_registry pending_registry \<and> issued_row \<in> set (rows pending_registry)
      \<and> hash_set issued_row"
    by (simp add: wf_registry_def pending_registry_def issued_row_def rejected_row_def
        unissued_row_def hash_set_def)
  have p: "add_project one_project_store example_env ''Second'' ''0,0'' ''desc'' =
      Inr (one_project_store
          \<lparr>projects := projects one_project_store @
             [\<lparr>p_id = 2, p_uuid = uuid4 example_env, p_name = ''Second'', p_location = ''0,0'',
               p_description = ''desc'', p_created_at = utcnow example_env,
               p_tx_hash = Some (simulate_tx_hash1 (uuid4 example_env @ utcnow example_env))\<rparr>],
            projects_seq := 2\<rparr>,
        uuid4 example_env, simulate_tx_hash1 (uuid4 example_env @ utcnow example_env))"
    by (simp add: add_project_def one_project_store_def example_env_def Let_def)
  from ledger_hash_assignment
    [of pending_registry example_env "''Demo''" None issued_row "[Issue example_env]"
      one_project_store "''Second''" "''0,0''" "''desc''"]
    sel w p
  show ?thesis
    by blast
qed

text \<open>
  C7, as stated, fails in \<^verbatim>\<open>app1.py\<close>: the project row that \<open>add_project\<close> creates in an
  empty store carries a ledger hash.
\<close>

theorem add_project_counterexample:
  "add_project init_db1 example_env ''Demo Mangrove'' ''10.0,20.0'' ''Demo project'' =
     Inr (init_db1
           \<lparr>projects :=
              [\<lparr>p_id = 1, p_uuid = uuid4 example_env, p_name = ''Demo Mangrove'',
                p_location = ''10.0,20.0'', p_description = ''Demo project'',
                p_created_at = utcnow example_env,
                p_tx_hash = Some (simulate_tx_hash1 (uuid4 example_env @ utcnow example_env))\<rparr>],
            projects_seq := 1\<rparr>,
          uuid4 example_env, simulate_tx_hash1 (uuid4 example_env @ utcnow example_env))"
  by (simp add: add_project_def init_db1_def Let_def)

subsection \<open>The digest\<close>

lemma replicate_numeral_unfold: "replicate (numeral k) x = x # replicate (pred_numeral k) x"
  by (simp add: numeral_eq_Suc)

lemma iterate_numeral: "iterate (numeral k) f x = iterate (pred_numeral k) f (f x)"
  by (simp add: numeral_eq_Suc)

lemma sha_blocks_numeral:
  "sha_blocks (numeral k) bytes st =
     sha_blocks (pred_numeral k) (drop 64 bytes) (compress st (take 64 bytes))"
  by (simp add: numeral_eq_Suc)

lemma sha_blocks_one: "sha_blocks 1 bytes st = compress st (take 64 bytes)"
  by simp

lemma add32_take_bit: "add32 x y = take_bit 32 (x + y)"
  by (simp add: add32_def take_bit_eq_mod)

lemma rotr_bits: "rotr n x = drop_bit n x + push_bit (32 - n) (take_bit n x)"
  by (simp add: rotr_def take_bit_eq_mod drop_bit_eq_div push_bit_eq_mult)

lemma shift_right_bits: "x div 2 ^ n = drop_bit n (x :: nat)"
  by (simp add: drop_bit_eq_div)

lemmas sha256_eval =
  sha256_hexdigest_def encode_def sha256_def sha_pad_def replicate_numeral_unfold
  sha_blocks_numeral sha_blocks_one compress_def schedule_def iterate_numeral next_word_def
  rotr_bits Ch_def Maj_def Sigma0_def Sigma1_def sigma0_def sigma1_def add32_take_bit
  not32_def K256_def H256_def hex32_def hex_digit_def

lemma hex_digit_in: "hex_digit n \<in> set ''0123456789abcdef''"
proof -
  have "n mod 16 < length ''0123456789abcdef''" by simp
  then show ?thesis unfolding hex_digit_def by (rule nth_mem)
qed

lemma set_hex32: "set (hex32 w) \<subseteq> set ''0123456789abcdef''"
proof
  fix c
  assume "c \<in> set (hex32 w)"
  then obtain n where "c = hex_digit n"
    by (auto simp: hex32_def)
  then show "c \<in> set ''0123456789abcdef''"
    using hex_digit_in by simp
qed

lemma set_hexdigest: "set (hexdigest st) \<subseteq> set ''0123456789abcdef''"
  using set_hex32 by (cases st rule: hexdigest.cases) (simp del: set_simps)

text \<open>Two digests, as \<^verbatim>\<open>hashlib\<close> computes them.\<close>

lemma digest_first_clock:
  "sha256_hexdigest ''6fa459ea-ee8a-3ca4-894e-db77e160355e|1704067200.0'' =
     ''2fabcaa43c569a9b63fa474f6dcd06d6e2e09471e635e223c7062d26310ef79b''"
  by (simp add: sha256_eval)

lemma digest_second_clock:
  "sha256_hexdigest ''6fa459ea-ee8a-3ca4-894e-db77e160355e|1704067201.5'' =
     ''e5278da941fcc2800f1369bf507b064b703ecc0eca8262e6430c168d1ea9da84''"
  by (simp add: sha256_eval)

text \<open>
  C8, as amended. In \<^verbatim>\<open>app1.py\<close> the hash generator returns the SHA-256 digest of the
  bytes of its seed; in \<^verbatim>\<open>app.py\<close> it returns the digest of its argument followed by a
  bar and the text of the clock. Both results are 64 characters long and made of
  hexadecimal digits; the first is the same for the same seed, the second for the same
  argument at the same clock reading.
\<close>

theorem simulate_tx_hash_is_sha256_hex:
  "simulate_tx_hash1 seed = hexdigest (sha256 (encode seed))
   \<and> simulate_tx_hash rec_uuid clock =
       hexdigest (sha256 (encode (rec_uuid @ ''|'' @ clock)))
   \<and> length (simulate_tx_hash1 seed) = 64
   \<and> set (simulate_tx_hash1 seed) \<subseteq> set ''0123456789abcdef''
   \<and> length (simulate_tx_hash rec_uuid clock) = 64
   \<and> set (simulate_tx_hash rec_uuid clock) \<subseteq> set ''0123456789abcdef''
   \<and> (seed' = seed \<longrightarrow> simulate_tx_hash1 seed' = simulate_tx_hash1 seed)
   \<and> (rec_uuid' = rec_uuid \<and> clock' = clock \<longrightarrow>
        simulate_tx_hash rec_uuid' clock' = simulate_tx_hash rec_uuid clock)"
  by (simp add: simulate_tx_hash1_def simulate_tx_hash_def sha256_hexdigest_def Let_def
      length_hexdigest set_hexdigest del: set_simps)

theorem simulate_tx_hash_is_sha256_hex_witness:
  "simulate_tx_hash1 ''6fa459ea-ee8a-3ca4-894e-db77e160355e|1704067200.0'' =
     ''2fabcaa43c569a9b63fa474f6dcd06d6e2e09471e635e223c7062d26310ef79b''
   \<and> simulate_tx_hash ''6fa459ea-ee8a-3ca4-894e-db77e160355e'' ''1704067200.0'' =
     ''2fabcaa43c569a9b63fa474f6dcd06d6e2e09471e635e223c7062d26310ef79b''"
  using simulate_tx_hash_is_sha256_hex
    [of "''6fa459ea-ee8a-3ca4-894e-db77e160355e|1704067200.0''" "''6fa459ea-ee8a-3ca4-894e-db77e160355e''" "''1704067200.0''"]
    digest_first_clock
  by (simp add: sha256_hexdigest_def)

text \<open>
  C8, as stated, fails in \<^verbatim>\<open>app.py\<close>: two calls with the same argument at two readings of
  the clock return two digests.
\<close>

theorem simulate_tx_hash_counterexample:
  "simulate_tx_hash ''6fa459ea-ee8a-3ca4-894e-db77e160355e'' ''1704067200.0'' =
     ''2fabcaa43c569a9b63fa474f6dcd06d6e2e09471e635e223c7062d26310ef79b''
   \<and> simulate_tx_hash ''6fa459ea-ee8a-3ca4-894e-db77e160355e'' ''1704067201.5'' =
     ''e5278da941fcc2800f1369bf507b064b703ecc0eca8262e6430c168d1ea9da84''
   \<and> simulate_tx_hash ''6fa459ea-ee8a-3ca4-894e-db77e160355e'' ''1704067200.0''
     \<noteq> simulate_tx_hash ''6fa459ea-ee8a-3ca4-894e-db77e160355e'' ''1704067201.5''"
  by (simp add: simulate_tx_hash_def digest_first_clock digest_second_clock)

subsection \<open>The tabular validator\<close>

subsection \<open>Statistics of a series\<close>

lemma sum_sq_shift:
  "sum_list (map (\<lambda>v. (v - c)\<^sup>2) vs) =
     sum_list (map (\<lambda>v. v\<^sup>2) vs) - 2 * c * sum_list vs + real (length vs) * c\<^sup>2"
  by (induction vs) (simp_all add: power2_diff algebra_simps)

lemma sum_sq_parallel:
  assumes "vs \<noteq> []"
  shows "sum_list (map (\<lambda>v. (v - c)\<^sup>2) vs) =
           sq_dev vs + real (length vs) * (pd_mean vs - c)\<^sup>2"
proof -
  have n: "real (length vs) \<noteq> 0" using assms by simp
  have m: "sum_list vs = real (length vs) * pd_mean vs"
    using n by (simp add: pd_mean_def)
  show ?thesis
    unfolding sq_dev_def sum_sq_shift [of c] sum_sq_shift [of "pd_mean vs"] m
    by (simp add: power2_diff algebra_simps power2_eq_square)
qed

lemma sq_dev_nonneg: "0 \<le> sq_dev vs"
  unfolding sq_dev_def by (rule sum_list_nonneg) auto

lemma pd_std_sq: "(pd_std vs)\<^sup>2 = sq_dev vs / real (length vs - 1)"
proof -
  have "0 \<le> sq_dev vs / real (length vs - 1)"
    using sq_dev_nonneg by simp
  then show ?thesis
    by (simp add: pd_std_def sq_dev_def)
qed

lemma pd_std_nonneg: "0 \<le> pd_std vs"
  using sq_dev_nonneg [of vs] by (simp add: pd_std_def sq_dev_def)

lemma zscore_denominator_pos: "0 < zscore_denominator vs"
  by (simp add: zscore_denominator_def)

lemma zscores_Inr:
  "zscores vs = Inr (map (\<lambda>v. (v - pd_mean vs) / zscore_denominator vs) vs)"
  using zscore_denominator_pos [of vs]
  by (simp add: zscores_def series_div_def comp_def)

text \<open>A reading is an anomaly exactly when its squared deviation exceeds nine sample variances.\<close>

lemma sq_dev_zero:
  assumes "sq_dev vs = 0" and "v \<in> set vs"
  shows "v = pd_mean vs"
proof -
  have "sum_list (map (\<lambda>v. (v - pd_mean vs)\<^sup>2) vs) = 0"
    using assms(1) by (simp add: sq_dev_def)
  moreover have "\<And>y. y \<in> set (map (\<lambda>v. (v - pd_mean vs)\<^sup>2) vs) \<Longrightarrow> 0 \<le> y"
    by auto
  ultimately have "\<forall>y \<in> set (map (\<lambda>v. (v - pd_mean vs)\<^sup>2) vs). y = 0"
    by (simp only: sum_list_nonneg_eq_0_iff)
  with assms(2) show ?thesis by simp
qed

lemma anomaly_iff:
  assumes "2 \<le> length vs" and "v \<in> set vs"
  shows "3 < \<bar>(v - pd_mean vs) / zscore_denominator vs\<bar> \<longleftrightarrow>
           9 * sq_dev vs < real (length vs - 1) * (v - pd_mean vs)\<^sup>2"
proof (cases "0 < pd_std vs")
  case True
  then have den: "zscore_denominator vs = pd_std vs"
    by (simp add: zscore_denominator_def)
  have n: "0 < real (length vs - 1)" using assms by simp
  from True have "0 < (pd_std vs)\<^sup>2" by simp
  then have "0 < sq_dev vs / real (length vs - 1)"
    by (simp only: pd_std_sq)
  with n sq_dev_nonneg [of vs] have S: "0 < sq_dev vs"
    by (auto simp: zero_less_divide_iff)
  have "3 < \<bar>(v - pd_mean vs) / pd_std vs\<bar> \<longleftrightarrow> 3 * pd_std vs < \<bar>v - pd_mean vs\<bar>"
    using True by (simp add: abs_divide pos_less_divide_eq)
  also have "\<dots> \<longleftrightarrow> (3 * pd_std vs)\<^sup>2 < (v - pd_mean vs)\<^sup>2"
    using True by (metis abs_le_square_iff abs_of_nonneg linorder_not_le mult_nonneg_nonneg
        pd_std_nonneg zero_le_numeral abs_abs)
  also have "\<dots> \<longleftrightarrow> 9 * (sq_dev vs / real (length vs - 1)) < (v - pd_mean vs)\<^sup>2"
    by (simp add: power_mult_distrib pd_std_sq)
  also have "\<dots> \<longleftrightarrow> 9 * sq_dev vs < real (length vs - 1) * (v - pd_mean vs)\<^sup>2"
    using n by (simp add: pos_divide_less_eq mult.commute)
  finally show ?thesis using den by simp
next
  case False
  then have z: "pd_std vs = 0" using pd_std_nonneg [of vs] by simp
  then have den: "zscore_denominator vs = 1"
    by (simp add: zscore_denominator_def)
  have n: "0 < real (length vs - 1)" using assms by simp
  from z have "(pd_std vs)\<^sup>2 = 0" by simp
  then have S: "sq_dev vs = 0"
    using n by (simp add: pd_std_sq)
  from sq_dev_zero [OF S assms(2)] den S show ?thesis
    by simp
qed

lemma count_anomalies_zscores:
  assumes "2 \<le> length vs"
  shows "zscores vs = Inr zs \<Longrightarrow>
     count_anomalies zs =
       length (filter (\<lambda>v. 9 * sq_dev vs < real (length vs - 1) * (v - pd_mean vs)\<^sup>2) vs)"
proof -
  assume "zscores vs = Inr zs"
  then have zs: "zs = map (\<lambda>v. (v - pd_mean vs) / zscore_denominator vs) vs"
    by (simp add: zscores_Inr)
  have "filter (\<lambda>v. 3 < \<bar>(v - pd_mean vs) / zscore_denominator vs\<bar>) vs =
        filter (\<lambda>v. 9 * sq_dev vs < real (length vs - 1) * (v - pd_mean vs)\<^sup>2) vs"
    by (rule filter_cong [OF refl]) (rule anomaly_iff [OF assms])
  then show ?thesis
    by (simp add: zs count_anomalies_def filter_map comp_def)
qed

lemma dropna_map_Some: "dropna (map Some xs) = xs"
  by (induction xs) (simp_all add: dropna_def)

lemma anomaly_detection_iot_dropna:
  "value_col df = Some cells \<Longrightarrow>
     anomaly_detection_iot df = anomaly_detection_iot (df\<lparr>value_col := Some (map Some (dropna cells))\<rparr>)"
  by (simp add: anomaly_detection_iot_def dropna_map_Some)

lemma anomaly_detection_iot_total: "\<exists>verdict. anomaly_detection_iot df = Inr verdict"
proof (cases "value_col df")
  case None
  then show ?thesis by (auto simp: anomaly_detection_iot_def)
next
  case (Some cells)
  let ?zs = "map (\<lambda>v. (v - pd_mean (dropna cells)) / zscore_denominator (dropna cells))
      (dropna cells)"
  consider "length (dropna cells) < 3"
    | "\<not> length (dropna cells) < 3" "count_anomalies ?zs > max 1 (length (dropna cells) div 10)"
    | "\<not> length (dropna cells) < 3" "\<not> count_anomalies ?zs > max 1 (length (dropna cells) div 10)"
      "nunique (dropna cells) \<le> 2"
    | "\<not> length (dropna cells) < 3" "\<not> count_anomalies ?zs > max 1 (length (dropna cells) div 10)"
      "\<not> nunique (dropna cells) \<le> 2"
    by blast
  then show ?thesis
  proof cases
    case 1
    with Some show ?thesis by (auto simp: anomaly_detection_iot_def)
  next
    case 2
    with Some show ?thesis by (auto simp: anomaly_detection_iot_def zscores_Inr Let_def)
  next
    case 3
    with Some show ?thesis by (auto simp: anomaly_detection_iot_def zscores_Inr Let_def)
  next
    case 4
    with Some show ?thesis by (auto simp: anomaly_detection_iot_def zscores_Inr Let_def)
  qed
qed

text \<open>
  C10. The tabular validator always returns a verdict: the denominator of the z-scores is
  never zero. Its verdict depends on the non-missing readings alone. When there are at
  least three of them and their standard deviation is zero, the z-scores are the
  deviations divided by 1 and the verdict is the flat-data failure.
\<close>

theorem zero_std_gives_a_verdict:
  "(\<exists>verdict. anomaly_detection_iot df = Inr verdict)
   \<and> (value_col df = Some cells \<longrightarrow>
        anomaly_detection_iot df =
          anomaly_detection_iot (df\<lparr>value_col := Some (map Some (dropna cells))\<rparr>))
   \<and> (value_col df = Some cells \<and> 3 \<le> length (dropna cells) \<and> pd_std (dropna cells) = 0 \<longrightarrow>
        zscore_denominator (dropna cells) = 1
        \<and> zscores (dropna cells) =
            Inr (map (\<lambda>v. (v - pd_mean (dropna cells)) / 1) (dropna cells))
        \<and> anomaly_detection_iot df = Inr (False, Flat_sensor_data))"
proof -
  have flat: "zscore_denominator (dropna cells) = 1
        \<and> zscores (dropna cells) =
            Inr (map (\<lambda>v. (v - pd_mean (dropna cells)) / 1) (dropna cells))
        \<and> anomaly_detection_iot df = Inr (False, Flat_sensor_data)"
    if col: "value_col df = Some cells" and len: "3 \<le> length (dropna cells)"
      and std: "pd_std (dropna cells) = 0"
  proof -
    let ?vs = "dropna cells"
    have den: "zscore_denominator ?vs = 1"
      using std by (simp add: zscore_denominator_def)
    have zs: "zscores ?vs = Inr (map (\<lambda>v. (v - pd_mean ?vs) / 1) ?vs)"
      using den zscores_Inr [of ?vs] by simp
    have "(pd_std ?vs)\<^sup>2 = 0" using std by simp
    then have "sq_dev ?vs / real (length ?vs - 1) = 0"
      by (simp only: pd_std_sq)
    with len have S: "sq_dev ?vs = 0" by simp
    then have all: "\<forall>v \<in> set ?vs. v = pd_mean ?vs"
      using sq_dev_zero by blast
    have "count_anomalies (map (\<lambda>v. (v - pd_mean ?vs) / 1) ?vs) =
        length (filter (\<lambda>v. 9 * sq_dev ?vs < real (length ?vs - 1) * (v - pd_mean ?vs)\<^sup>2) ?vs)"
      using count_anomalies_zscores [OF _ zs] len by simp
    also have "\<dots> = 0"
      using all S by (simp add: filter_empty_conv)
    finally have count: "count_anomalies (map (\<lambda>v. (v - pd_mean ?vs) / 1) ?vs) = 0" .
    from len have "?vs \<noteq> []" by auto
    with all have "set ?vs = {pd_mean ?vs}"
      by (cases ?vs) auto
    then have "card (set ?vs) = 1" by simp
    then have uniq: "nunique ?vs = 1"
      by (simp add: nunique_def length_remdups_card_conv)
    from col len zs count uniq have "anomaly_detection_iot df = Inr (False, Flat_sensor_data)"
      by (simp add: anomaly_detection_iot_def Let_def)
    with den zs show ?thesis by simp
  qed
  from anomaly_detection_iot_total anomaly_detection_iot_dropna flat show ?thesis
    by blast
qed

theorem zero_std_gives_a_verdict_witness:
  "anomaly_detection_iot constant_csv = Inr (False, Flat_sensor_data)
   \<and> zscores [10, 10, 10] = Inr [0, 0, 0]"
proof -
  have d: "dropna [Some 10, None, Some 10, Some (10::real)] = [10, 10, 10]"
    by (simp add: dropna_def)
  have col: "value_col constant_csv = Some [Some 10, None, Some 10, Some 10]"
    by (simp add: constant_csv_def)
  have std: "pd_std [10, 10, 10] = 0"
    by (simp add: pd_std_def pd_mean_def)
  have m: "pd_mean [10, 10, 10] = 10"
    by (simp add: pd_mean_def)
  have pre: "value_col constant_csv = Some [Some 10, None, Some 10, Some 10]
      \<and> 3 \<le> length (dropna [Some 10, None, Some 10, Some (10::real)])
      \<and> pd_std (dropna [Some 10, None, Some 10, Some 10]) = 0"
    by (simp add: col d std)
  from pre zero_std_gives_a_verdict [of constant_csv "[Some 10, None, Some 10, Some 10]",
      THEN conjunct2, THEN conjunct2]
  have "zscores (dropna [Some 10, None, Some 10, Some 10]) =
          Inr (map (\<lambda>v. (v - pd_mean (dropna [Some 10, None, Some 10, Some 10])) / 1)
            (dropna [Some 10, None, Some 10, Some 10]))
      \<and> anomaly_detection_iot constant_csv = Inr (False, Flat_sensor_data)"
    by blast
  then show ?thesis
    by (simp add: d m)
qed

lemma outlier_core:
  fixes N S u e :: real
  assumes N: "2 \<le> N" and S: "0 \<le> S" and u: "0 \<le> u" and e: "0 \<le> e"
    and tight: "(N - 1) * u\<^sup>2 \<le> 9 * S"
    and out: "9 * (S + N * (N + 1) * e\<^sup>2) < N * (N * e)\<^sup>2"
  shows "N * (u + e)\<^sup>2 \<le> 9 * (S + N * (N + 1) * e\<^sup>2)"
proof -
  have Ne2: "0 \<le> N * e\<^sup>2" using N by simp
  have "9 * S < N * e\<^sup>2 * (N * N - 9 * N - 9)"
    using out by (simp add: power2_eq_square algebra_simps)
  with tight have a: "(N - 1) * u\<^sup>2 < N * e\<^sup>2 * (N * N - 9 * N - 9)"
    by linarith
  have "N * N - 9 * N - 9 \<le> N * (N - 1)"
    using N by (simp add: algebra_simps)
  then have "N * e\<^sup>2 * (N * N - 9 * N - 9) \<le> N * e\<^sup>2 * (N * (N - 1))"
    using Ne2 by (rule mult_left_mono)
  with a have "(N - 1) * u\<^sup>2 < (N - 1) * (N * e)\<^sup>2"
    by (simp add: power2_eq_square algebra_simps)
  moreover have "0 < N - 1" using N by simp
  ultimately have "u\<^sup>2 < (N * e)\<^sup>2"
    by (simp only: mult_less_cancel_left_pos)
  moreover have "0 \<le> N * e" using N e by simp
  ultimately have "u < N * e"
    by (rule power2_less_imp_less)
  then have ule: "u \<le> N * e"
    by simp
  have b: "u * u \<le> (N * e) * (N * e)"
    using ule u by (simp add: mult_mono)
  have c: "u * e \<le> (N * e) * e"
    using ule e by (rule mult_right_mono)
  have "N * (u * e) \<le> N * ((N * e) * e)"
    using c N by (simp add: mult_left_mono)
  then have d: "2 * N * u * e \<le> 2 * N * N * e * e"
    by (simp add: algebra_simps)
  have f: "0 \<le> N * N * e * e" "0 \<le> N * e * e"
    using N e by simp_all
  have "N * (u + e)\<^sup>2 = (N - 1) * u\<^sup>2 + (u * u + 2 * N * u * e + N * e * e)"
    by (simp add: power2_eq_square algebra_simps)
  also have "\<dots> \<le> 9 * S + (N * N * e * e + 2 * N * N * e * e + N * e * e)"
    using tight b d by (simp add: algebra_simps)
  also have "\<dots> \<le> 9 * S + (9 * N * N * e * e + 9 * N * e * e)"
    using f by simp
  also have "\<dots> = 9 * (S + N * (N + 1) * e\<^sup>2)"
    by (simp add: power2_eq_square algebra_simps)
  finally show ?thesis .
qed

text \<open>Mean and squared deviations after one more reading \<open>x\<close> is put into a series.\<close>

lemma inject_mean:
  assumes "xs @ ys \<noteq> []"
  shows "pd_mean (xs @ x # ys) =
           pd_mean (xs @ ys) + (x - pd_mean (xs @ ys)) / (real (length (xs @ ys)) + 1)"
proof -
  define n where "n = real (length (xs @ ys))"
  define t where "t = sum_list (xs @ ys)"
  have n: "0 < n" using assms unfolding n_def by (cases "xs @ ys") simp_all
  have l: "real (length (xs @ x # ys)) = n + 1"
    by (simp add: n_def)
  have s: "sum_list (xs @ x # ys) = t + x"
    by (simp add: t_def)
  have "pd_mean (xs @ x # ys) = (t + x) / (n + 1)"
    unfolding pd_mean_def l s ..
  also have "\<dots> = t / n + (x - t / n) / (n + 1)"
    using n by (simp add: divide_simps) (simp add: algebra_simps)
  finally show ?thesis
    unfolding pd_mean_def n_def t_def .
qed

lemma inject_sq_dev:
  assumes "xs @ ys \<noteq> []"
  shows "sq_dev (xs @ x # ys) =
           sq_dev (xs @ ys) + real (length (xs @ ys)) * (real (length (xs @ ys)) + 1)
             * ((x - pd_mean (xs @ ys)) / (real (length (xs @ ys)) + 1))\<^sup>2"
proof -
  define n where "n = real (length (xs @ ys))"
  define m where "m = pd_mean (xs @ ys)"
  define d where "d = (x - m) / (n + 1)"
  define m' where "m' = pd_mean (xs @ x # ys)"
  have n: "0 < n" using assms unfolding n_def by (cases "xs @ ys") simp_all
  have m': "m' = m + d"
    unfolding m'_def m_def d_def n_def using assms by (rule inject_mean)
  have x: "x - m' = n * d"
    unfolding m' d_def using n by (simp add: field_simps)
  have "sq_dev (xs @ x # ys) =
      sum_list (map (\<lambda>v. (v - m')\<^sup>2) (xs @ ys)) + (x - m')\<^sup>2"
    by (simp add: sq_dev_def m'_def)
  also have "sum_list (map (\<lambda>v. (v - m')\<^sup>2) (xs @ ys)) = sq_dev (xs @ ys) + n * (m - m')\<^sup>2"
    unfolding n_def m_def by (rule sum_sq_parallel [OF assms])
  also have "sq_dev (xs @ ys) + n * (m - m')\<^sup>2 + (x - m')\<^sup>2 =
      sq_dev (xs @ ys) + n * (n + 1) * d\<^sup>2"
    unfolding x unfolding m' by (simp add: power2_eq_square algebra_simps)
  finally show ?thesis
    unfolding n_def m_def d_def .
qed

text \<open>
  If no reading of a series is an anomaly and a reading put into it is one in the new
  series, then no old reading is an anomaly in the new series.
\<close>

lemma old_readings_stay_normal:
  assumes len: "2 \<le> length (xs @ ys)"
    and tight: "\<forall>v \<in> set (xs @ ys).
        \<not> 9 * sq_dev (xs @ ys) < real (length (xs @ ys) - 1) * (v - pd_mean (xs @ ys))\<^sup>2"
    and out: "9 * sq_dev (xs @ x # ys)
        < real (length (xs @ x # ys) - 1) * (x - pd_mean (xs @ x # ys))\<^sup>2"
    and v: "v \<in> set (xs @ ys)"
  shows "\<not> 9 * sq_dev (xs @ x # ys)
        < real (length (xs @ x # ys) - 1) * (v - pd_mean (xs @ x # ys))\<^sup>2"
proof -
  define n where "n = real (length (xs @ ys))"
  define m where "m = pd_mean (xs @ ys)"
  define d where "d = (x - m) / (n + 1)"
  define S where "S = sq_dev (xs @ ys)"
  have ne: "xs @ ys \<noteq> []" using len by auto
  have n: "2 \<le> n" using len by (simp add: n_def)
  have n1: "real (length (xs @ ys) - 1) = n - 1" using len by (simp add: n_def)
  have n': "real (length (xs @ x # ys) - 1) = n" by (simp add: n_def)
  have m': "pd_mean (xs @ x # ys) = m + d"
    unfolding m_def d_def n_def using ne by (rule inject_mean)
  have S': "sq_dev (xs @ x # ys) = S + n * (n + 1) * d\<^sup>2"
    unfolding S_def m_def d_def n_def using ne by (rule inject_sq_dev)
  have x: "x - (m + d) = n * d"
    unfolding d_def using n by (simp add: field_simps)
  have S0: "0 \<le> S" unfolding S_def by (rule sq_dev_nonneg)
  have "\<not> 9 * S < (n - 1) * (v - m)\<^sup>2"
    using tight v unfolding S_def m_def n1 [symmetric] by blast
  then have t: "(n - 1) * \<bar>v - m\<bar>\<^sup>2 \<le> 9 * S"
    by (simp add: not_less)
  have "9 * (S + n * (n + 1) * d\<^sup>2) < n * (n * d)\<^sup>2"
    using out unfolding n' m' x S' .
  then have o: "9 * (S + n * (n + 1) * \<bar>d\<bar>\<^sup>2) < n * (n * \<bar>d\<bar>)\<^sup>2"
    by (simp add: power_mult_distrib)
  have core: "n * (\<bar>v - m\<bar> + \<bar>d\<bar>)\<^sup>2 \<le> 9 * (S + n * (n + 1) * \<bar>d\<bar>\<^sup>2)"
    by (rule outlier_core [OF n S0 _ _ t o]) simp_all
  have "\<bar>v - (m + d)\<bar> \<le> \<bar>v - m\<bar> + \<bar>d\<bar>"
    by simp
  then have "\<bar>v - (m + d)\<bar>\<^sup>2 \<le> (\<bar>v - m\<bar> + \<bar>d\<bar>)\<^sup>2"
    by (rule power_mono) simp
  then have "n * (v - (m + d))\<^sup>2 \<le> n * (\<bar>v - m\<bar> + \<bar>d\<bar>)\<^sup>2"
    using n by (simp add: mult_left_mono)
  with core have "n * (v - (m + d))\<^sup>2 \<le> 9 * (S + n * (n + 1) * d\<^sup>2)"
    by simp
  then show ?thesis
    unfolding n' m' S' by (simp add: not_less)
qed


subsection \<open>The tabular validator in floating point\<close>

lemma anomaly_detection_iot_f64_readings:
  assumes "value_col df = Some cells" and "3 \<le> length (dropna cells)"
  shows "anomaly_detection_iot_f64 lib df =
     (if max 1 (length (dropna cells) div 10) < count_anomalies64 (zscores64 lib (dropna cells))
      then (False, Anomalies_detected (count_anomalies64 (zscores64 lib (dropna cells))))
      else if nunique (dropna cells) \<le> 2 then (False, Flat_readings)
      else (True, Readings_ok (mean64 lib (dropna cells)) (std64 lib (dropna cells))
             (count_anomalies64 (zscores64 lib (dropna cells)))))"
  using assms by (simp add: anomaly_detection_iot_f64_def Let_def)


lemma count_anomalies64_filter:
  "count_anomalies64 (zscores64 lib vals) =
     length (filter (\<lambda>v. fgt (fabs (zscore64 lib vals v)) (Num 3)) vals)"
  by (simp add: count_anomalies64_def zscores64_def filter_map comp_def)
































text \<open>
  At the threshold the rounding decides. In \<open>boundary_series\<close> the readings 31 and -31 lie
  exactly three exact sample standard deviations from the mean, which is not more than 3.
  With the standard deviation \<open>10.333333333333332\<close> that the two roundings of the two-pass
  computation give (\<open>1922 / 18\<close>, then the square root), the two rounded quotients exceed 3
  and the validator reports two anomalies, over a budget of one.
\<close>

lemma boundary_zscore:
  "rnd64 (8725724278030336 / 2908574759343445) = 6755399441055745 / 2251799813685248"
  "rnd64 (- (8725724278030336 / 2908574759343445)) = - (6755399441055745 / 2251799813685248)"
  by (subst rnd64_eval [of 1]; simp add: powr_minus round_even_def Let_def)+

lemma rounding_decides_at_the_boundary:
  assumes "mean64 lib boundary_series = Num 0"
    and "std64 lib boundary_series = Num (2908574759343445 / 281474976710656)"
  shows "anomaly_detection_iot_f64 lib boundary_csv = (False, Anomalies_detected 2)"
proof -
  have "\<bar>6755399441055745 / 2251799813685248 :: real\<bar> < overflow64"
    by (rule small_below_overflow64) simp
  then have a: "to_float (8725724278030336 / 2908574759343445) =
      Num (6755399441055745 / 2251799813685248)"
    "to_float (- (8725724278030336 / 2908574759343445)) =
      Num (- (6755399441055745 / 2251799813685248))"
    by (simp_all add: to_float_def boundary_zscore)
  have z: "fgt (fabs (zscore64 lib boundary_series 31)) (Num 3)"
    "fgt (fabs (zscore64 lib boundary_series (- 31))) (Num 3)"
    "\<not> fgt (fabs (zscore64 lib boundary_series 0)) (Num 3)"
    using a by (simp_all add: zscore64_def assms)
  have c: "count_anomalies64 (zscores64 lib boundary_series) = 2"
    unfolding count_anomalies64_filter
    by (simp add: boundary_series_def) (simp add: boundary_series_def [symmetric] z)
  have l: "length boundary_series = 19"
    by (simp add: boundary_series_def)
  have col: "value_col boundary_csv = Some (map Some boundary_series)"
    by (simp add: boundary_csv_def)
  show ?thesis
    using anomaly_detection_iot_f64_readings [OF col, of lib]
    by (simp add: dropna_map_Some c l)
qed

end
